theory Spec2Isabelle
  imports Complex_Main "HOL-Library.Word"
begin

unbundle bit_operations_syntax

section \<open>The note-timing extractor (\<^verbatim>\<open>SpessaSynthPlayer.getNoteTimes\<close>)\<close>

text \<open>
  JavaScript numbers that hold times (seconds, tempo) are modelled as \<^typ>\<open>real\<close>: the
  theory speaks about the arithmetic the code writes down, not about IEEE rounding.
  Bytes are \<^typ>\<open>8 word\<close>; tick counts and the time division are integers.
\<close>

type_synonym byte = "8 word"

subsection \<open>The decoder's data (declared in the module declaration of \<^verbatim>\<open>spessasynth_lib\<close>)\<close>

text \<open>
  \<^verbatim>\<open>class IndexedByteArray extends Uint8Array { currentIndex: number }\<close>.
  A typed array is a view (offset and length) of a byte buffer, plus here a read cursor.
\<close>

record IndexedByteArray =
  buffer :: "byte list"
  byteOffset :: nat
  byteLength :: nat
  currentIndex :: nat

text \<open>\<^verbatim>\<open>arr[i]\<close>: the byte of the view at \<open>i\<close>, or \<^verbatim>\<open>undefined\<close> (\<open>None\<close>) outside the view.\<close>

definition byteAt :: "IndexedByteArray \<Rightarrow> nat \<Rightarrow> byte option" where
  "byteAt arr i =
     (if i < byteLength arr \<and> byteOffset arr + i < length (buffer arr)
      then Some (buffer arr ! (byteOffset arr + i)) else None)"

text \<open>
  \<^verbatim>\<open>new IndexedByteArray(arr.buffer)\<close>: a fresh view of the whole buffer. The cursor of the
  fresh object is the \<open>0\<close> that \<^verbatim>\<open>getTempo\<close> assigns on its next line.
\<close>

definition fromBuffer :: "byte list \<Rightarrow> IndexedByteArray" where
  "fromBuffer b = \<lparr>buffer = b, byteOffset = 0, byteLength = length b, currentIndex = 0\<rparr>"

record MidiMessage =
  ticks :: int
  messageStatusByte :: byte
  messageData :: IndexedByteArray

record BasicMIDI =
  timeDivision :: int
  duration :: real
  tracks :: "MidiMessage list list"

text \<open>
  Modelled from the spec: \<^verbatim>\<open>readBytesAsUintBigEndian(dataArray, bytesAmount)\<close> is imported
  from \<^verbatim>\<open>spessasynth_lib\<close> and only declared in the sources at hand. By its name and
  declaration it reads \<open>bytesAmount\<close> bytes at the cursor, most significant first, and
  moves the cursor past them; the spec (section 3) says the tempo event carries the
  microseconds per quarter note. A byte outside the view counts as \<open>0\<close>. The extractor calls
  it with \<open>bytesAmount = 3\<close> only.
\<close>

definition readBytesAsUintBigEndian :: "IndexedByteArray \<Rightarrow> nat \<Rightarrow> nat \<times> IndexedByteArray" where
  "readBytesAsUintBigEndian dataArray bytesAmount =
     (foldl (\<lambda>out i. out * 256 + (case byteAt dataArray (currentIndex dataArray + i) of
                                       Some b \<Rightarrow> unat b | None \<Rightarrow> 0))
            0 [0..<bytesAmount],
      dataArray\<lparr>currentIndex := currentIndex dataArray + bytesAmount\<rparr>)"

subsection \<open>\<^verbatim>\<open>getTempo\<close>\<close>

text \<open>
  \<^verbatim>\<open>
  function getTempo(event) {
      event.messageData = new IndexedByteArray(event.messageData.buffer);
      event.messageData.currentIndex = 0;
      return 60000000 / readBytesAsUintBigEndian(event.messageData, 3);
  }\<close>
  The function assigns to a field of its argument, so the model returns the event too.
\<close>

definition getTempo :: "MidiMessage \<Rightarrow> real \<times> MidiMessage" where
  "getTempo event =
     (let fresh = (fromBuffer (buffer (messageData event)))\<lparr>currentIndex := 0\<rparr>;
          (v, arr) = readBytesAsUintBigEndian fresh 3
      in (60000000 / real v, event\<lparr>messageData := arr\<rparr>))"

subsection \<open>Note intervals and the extractor's state\<close>

text \<open>
  \<^verbatim>\<open>class NoteTime { midiNote; start; length; velocity }\<close>.
  \<open>midiNote\<close> is \<^verbatim>\<open>event.messageData[0]\<close>, which is \<^verbatim>\<open>undefined\<close> (\<open>None\<close>) for an empty
  payload; \<open>velocity\<close> is \<^verbatim>\<open>event.messageData[1] / 127\<close>, which is \<^verbatim>\<open>NaN\<close> (\<open>None\<close>) when
  the second byte is missing. The field \<^verbatim>\<open>length\<close> is named \<open>length_sec\<close> here.
\<close>

record NoteTime =
  midiNote :: "byte option"
  start :: real
  length_sec :: real
  velocity :: "real option"

text \<open>
  The same \<^verbatim>\<open>NoteTime\<close> object is pushed to \<^verbatim>\<open>noteTimes[channel]\<close> and to
  \<^verbatim>\<open>unfinishedNotes[channel]\<close>, and \<^verbatim>\<open>noteOff\<close> writes its length through the second
  reference. The model keeps the objects in a store \<open>store\<close> (the address of an object is
  its index, in allocation order) and both arrays hold addresses.
\<close>

record extractor =
  store :: "NoteTime list"
  noteTimes :: "nat list list"
  unfinishedNotes :: "nat list list"
  elapsedTime :: real
  oneTickToSeconds :: real
  unfinished :: int

definition minNoteTime :: real where
  "minNoteTime = 0.02"

text \<open>\<^verbatim>\<open>Array.prototype.findIndex\<close>: the first index whose element satisfies \<open>P\<close>;
  \<open>None\<close> stands for the \<open>-1\<close> of JavaScript.\<close>

fun findIndex :: "('a \<Rightarrow> bool) \<Rightarrow> 'a list \<Rightarrow> nat option" where
  "findIndex P [] = None"
| "findIndex P (x # xs) =
     (if P x then Some 0 else map_option Suc (findIndex P xs))"

text \<open>\<^verbatim>\<open>arr.splice(i, 1)\<close>.\<close>

definition splice1 :: "nat \<Rightarrow> 'a list \<Rightarrow> 'a list" where
  "splice1 i xs = take i xs @ drop (Suc i) xs"

text \<open>The length a closing note gets: \<^verbatim>\<open>time < minNoteTime && channel === 9 ? minNoteTime : time\<close>.\<close>

definition closedLength :: "nat \<Rightarrow> real \<Rightarrow> real" where
  "closedLength channel time =
     (if time < minNoteTime \<and> channel = 9 then minNoteTime else time)"

text \<open>
  \<^verbatim>\<open>
  const noteOff = (midiNote, channel) => {
      const noteIndex = unfinishedNotes[channel].findIndex(n => n.midiNote === midiNote);
      const note = unfinishedNotes[channel][noteIndex];
      if (note) {
          const time = elapsedTime - note.start;
          note.length = (time < minNoteTime && channel === 9 ? minNoteTime : time);
          unfinishedNotes[channel].splice(noteIndex, 1);
      }
      unfinished--;
  };\<close>
\<close>

definition noteOff :: "byte option \<Rightarrow> nat \<Rightarrow> extractor \<Rightarrow> extractor" where
  "noteOff pitch channel s =
     (let s' =
        (case findIndex (\<lambda>n. midiNote (store s ! n) = pitch) (unfinishedNotes s ! channel) of
           None \<Rightarrow> s
         | Some noteIndex \<Rightarrow>
             (let note = unfinishedNotes s ! channel ! noteIndex;
                  time = elapsedTime s - start (store s ! note)
              in s\<lparr>store := (store s)[note := (store s ! note)\<lparr>length_sec := closedLength channel time\<rparr>],
                   unfinishedNotes :=
                     (unfinishedNotes s)[channel := splice1 noteIndex (unfinishedNotes s ! channel)]\<rparr>))
      in s'\<lparr>unfinished := unfinished s' - 1\<rparr>)"

text \<open>The note-on branch after \<^verbatim>\<open>noteOff\<close> has stopped the previous note: allocate the
  object, push it to both arrays, count it.\<close>

definition noteOn :: "MidiMessage \<Rightarrow> nat \<Rightarrow> extractor \<Rightarrow> extractor" where
  "noteOn event channel s =
     (let noteTime = \<lparr>midiNote = byteAt (messageData event) 0,
                      start = elapsedTime s,
                      length_sec = - 1,
                      velocity = map_option (\<lambda>b. real (unat b) / 127) (byteAt (messageData event) 1)\<rparr>;
          a = length (store s)
      in s\<lparr>store := store s @ [noteTime],
           noteTimes := (noteTimes s)[channel := noteTimes s ! channel @ [a]],
           unfinishedNotes := (unfinishedNotes s)[channel := unfinishedNotes s ! channel @ [a]],
           unfinished := unfinished s + 1\<rparr>)"

text \<open>
  The body of the \<^verbatim>\<open>while\<close> loop up to the advance of the clock: the effect of one event.
  \<^verbatim>\<open>status = event.messageStatusByte >> 4\<close>, \<^verbatim>\<open>channel = event.messageStatusByte & 0x0F\<close>.
\<close>

definition processEvent :: "int \<Rightarrow> MidiMessage \<Rightarrow> extractor \<Rightarrow> MidiMessage \<times> extractor" where
  "processEvent td event s =
     (let status = drop_bit 4 (messageStatusByte event);
          channel = unat (messageStatusByte event AND 0x0F)
      in if status = 0x8 then (event, noteOff (byteAt (messageData event) 0) channel s)
         else if status = 0x9 then
           (if byteAt (messageData event) 1 = Some 0
            then (event, noteOff (byteAt (messageData event) 0) channel s)
            else (event, noteOn event channel (noteOff (byteAt (messageData event) 0) channel s)))
         else if messageStatusByte event = 0x51 then
           (let (tempo, event') = getTempo event
            in (event', s\<lparr>oneTickToSeconds := 60 / (tempo * real_of_int td)\<rparr>))
         else (event, s))"

text \<open>
  The loop. \<open>events\<close> is the store of the event objects (the flattened tracks, an object's
  address is its index) and the list walked is the sorted array of references. After an
  event that is not the last, the clock advances by
  \<^verbatim>\<open>oneTickToSeconds * (events[eventIndex].ticks - event.ticks)\<close>.
\<close>

fun walk :: "int \<Rightarrow> nat list \<Rightarrow> MidiMessage list \<times> extractor \<Rightarrow> MidiMessage list \<times> extractor" where
  "walk td [] (events, s) = (events, s)"
| "walk td [a] (events, s) =
     (let (event', s') = processEvent td (events ! a) s
      in (events[a := event'], s'))"
| "walk td (a # b # rest) (events, s) =
     (let (event', s') = processEvent td (events ! a) s;
          events' = events[a := event'];
          s'' = s'\<lparr>elapsedTime := elapsedTime s'
                   + oneTickToSeconds s' * real_of_int (ticks (events' ! b) - ticks event')\<rparr>
      in walk td (b # rest) (events', s''))"


text \<open>The state before the loop: sixteen empty lists twice, the clock at \<open>0\<close>, 120 BPM.\<close>

definition init :: "int \<Rightarrow> extractor" where
  "init td =
     \<lparr>store = [], noteTimes = replicate 16 [], unfinishedNotes = replicate 16 [],
      elapsedTime = 0, oneTickToSeconds = 60 / (120 * real_of_int td), unfinished = 0\<rparr>"

text \<open>
  \<^verbatim>\<open>
  if (unfinished > 0) {
      unfinishedNotes.forEach((channelNotes, channel) => {
          channelNotes.forEach(note => {
              const time = elapsedTime - note.start;
              note.length = (time < minNoteTime && channel === 9 ? minNoteTime : time);
          });
      });
  }\<close>
\<close>

definition closeNote :: "real \<Rightarrow> nat \<Rightarrow> NoteTime list \<Rightarrow> nat \<Rightarrow> NoteTime list" where
  "closeNote elapsed channel ns note =
     ns[note := (ns ! note)\<lparr>length_sec := closedLength channel (elapsed - start (ns ! note))\<rparr>]"

definition finishUnfinished :: "extractor \<Rightarrow> extractor" where
  "finishUnfinished s =
     (if unfinished s > 0
      then s\<lparr>store :=
             foldl (\<lambda>ns channel. foldl (closeNote (elapsedTime s) channel) ns (unfinishedNotes s ! channel))
                   (store s) [0..<length (unfinishedNotes s)]\<rparr>
      else s)"

text \<open>
  \<^verbatim>\<open>let events = trackData.flat(); events.sort((e1, e2) => e1.ticks - e2.ticks);\<close>
  The sort is stable; \<open>sort_key\<close> is the stable insertion sort. It sorts the references.
\<close>

definition sortedRefs :: "MidiMessage list \<Rightarrow> nat list" where
  "sortedRefs events = sort_key (\<lambda>a. ticks (events ! a)) [0..<length events]"

text \<open>The run of \<^verbatim>\<open>getNoteTimes\<close> on a document: the event store and the extractor's state
  when the function returns.\<close>

definition run :: "BasicMIDI \<Rightarrow> MidiMessage list \<times> extractor" where
  "run midi =
     (let events = concat (tracks midi);
          (events', s) = walk (timeDivision midi) (sortedRefs events) (events, init (timeDivision midi))
      in (events', finishUnfinished s))"

text \<open>The returned \<^verbatim>\<open>noteTimes\<close>: the objects behind the references.\<close>

definition getNoteTimes :: "BasicMIDI \<Rightarrow> NoteTime list list" where
  "getNoteTimes midi = (let s = snd (run midi) in map (map (\<lambda>a. store s ! a)) (noteTimes s))"

text \<open>The document after the call: the tracks hold the same objects, in the state the
  loop left them.\<close>

fun unflat :: "nat list \<Rightarrow> 'a list \<Rightarrow> 'a list list" where
  "unflat [] xs = []"
| "unflat (n # ns) xs = take n xs # unflat ns (drop n xs)"

definition documentAfter :: "BasicMIDI \<Rightarrow> BasicMIDI" where
  "documentAfter midi = midi\<lparr>tracks := unflat (map length (tracks midi)) (fst (run midi))\<rparr>"

subsection \<open>Predicates for the properties below\<close>

text \<open>What the loop does to an event object: only \<^verbatim>\<open>getTempo\<close> assigns to one.\<close>

definition touched :: "MidiMessage \<Rightarrow> MidiMessage" where
  "touched e = (if messageStatusByte e = 0x51 then snd (getTempo e) else e)"

text \<open>The open intervals of a channel are in the store and have pairwise different
  pitches.\<close>

definition openOk :: "NoteTime list \<Rightarrow> nat list \<Rightarrow> bool" where
  "openOk st opn \<longleftrightarrow>
     (\<forall>a\<in>set opn. a < length st) \<and> distinct (map (\<lambda>a. midiNote (st ! a)) opn)"

definition validOpen :: "extractor \<Rightarrow> bool" where
  "validOpen s \<longleftrightarrow>
     length (unfinishedNotes s) = 16 \<and> (\<forall>opn\<in>set (unfinishedNotes s). openOk (store s) opn)"





section \<open>The playback controller (\<^verbatim>\<open>SpessaSynthPlayer\<close>) and the widget (\<^verbatim>\<open>PlayerElement\<close>)\<close>

subsection \<open>The audio backend\<close>

text \<open>
  Modelled from the spec: the \<^verbatim>\<open>Sequencer\<close> of \<^verbatim>\<open>spessasynth_lib\<close> is an external collaborator;
  the sources at hand only declare it (\<^verbatim>\<open>paused\<close>, \<^verbatim>\<open>currentTime\<close>, \<^verbatim>\<open>play()\<close>, \<^verbatim>\<open>pause()\<close>,
  \<^verbatim>\<open>loadNewSongList\<close>). The spec (sections 4.2 and 6): \<^verbatim>\<open>play\<close> starts the transport,
  \<^verbatim>\<open>pause\<close> suspends it and keeps the position, setting \<^verbatim>\<open>currentTime\<close> seeks without
  changing the play/pause state, \<^verbatim>\<open>loadNewSongList\<close> swaps the content. A sequencer built
  with \<^verbatim>\<open>autoPlay: false\<close> starts paused at position \<open>0\<close>.
\<close>

record Sequencer =
  paused :: bool
  position :: real
  songList :: "BasicMIDI list"

definition newSequencer :: "BasicMIDI list \<Rightarrow> Sequencer" where
  "newSequencer songs = \<lparr>paused = True, position = 0, songList = songs\<rparr>"

definition loadNewSongList :: "BasicMIDI list \<Rightarrow> Sequencer \<Rightarrow> Sequencer" where
  "loadNewSongList songs q = q\<lparr>songList := songs\<rparr>"

subsection \<open>\<^verbatim>\<open>SpessaSynthPlayer\<close>\<close>

text \<open>
  \<^verbatim>\<open>synth\<close> is the synthesizer built by \<^verbatim>\<open>initPlayer\<close> from \<^verbatim>\<open>soundfontBuffer\<close>; the model keeps
  the buffer it was built from. \<^verbatim>\<open>seq\<close> is \<^verbatim>\<open>undefined\<close> (\<open>None\<close>) until \<^verbatim>\<open>loadMIDI\<close>. The field
  \<^verbatim>\<open>midi\<close> is named \<open>loadedMidi\<close>. \<open>objectId\<close> is the identity of the object (each \<^verbatim>\<open>new\<close>
  takes a fresh one).
\<close>

record SpessaSynthPlayer =
  objectId :: nat
  soundfontBuffer :: "byte list"
  synth :: "byte list option"
  seq :: "Sequencer option"
  loadedMidi :: "BasicMIDI option"

text \<open>
  The accessors read \<^verbatim>\<open>this.seq\<close>; with \<^verbatim>\<open>seq\<close> undefined they throw a \<^verbatim>\<open>TypeError\<close>, which is
  the value \<open>None\<close> here.
  \<^verbatim>\<open>get isPlaying() { return !this.seq.paused; }\<close>
\<close>

definition isPlaying :: "SpessaSynthPlayer \<Rightarrow> bool option" where
  "isPlaying p = (case seq p of None \<Rightarrow> None | Some q \<Rightarrow> Some (\<not> paused q))"

text \<open>\<^verbatim>\<open>get currentTime() { return this.seq.currentTime; }\<close>\<close>

definition getCurrentTime :: "SpessaSynthPlayer \<Rightarrow> real option" where
  "getCurrentTime p = (case seq p of None \<Rightarrow> None | Some q \<Rightarrow> Some (position q))"

text \<open>\<^verbatim>\<open>set currentTime(newTime) { this.seq.currentTime = newTime; }\<close>\<close>

definition setCurrentTime :: "real \<Rightarrow> SpessaSynthPlayer \<Rightarrow> SpessaSynthPlayer option" where
  "setCurrentTime newTime p =
     (case seq p of None \<Rightarrow> None | Some q \<Rightarrow> Some (p\<lparr>seq := Some (q\<lparr>position := newTime\<rparr>)\<rparr>))"

text \<open>\<^verbatim>\<open>play() { this.seq.play(); }\<close> and \<^verbatim>\<open>pause() { this.seq.pause(); }\<close>\<close>

definition play :: "SpessaSynthPlayer \<Rightarrow> SpessaSynthPlayer option" where
  "play p = (case seq p of None \<Rightarrow> None | Some q \<Rightarrow> Some (p\<lparr>seq := Some (q\<lparr>paused := False\<rparr>)\<rparr>))"

definition pause :: "SpessaSynthPlayer \<Rightarrow> SpessaSynthPlayer option" where
  "pause p = (case seq p of None \<Rightarrow> None | Some q \<Rightarrow> Some (p\<lparr>seq := Some (q\<lparr>paused := True\<rparr>)\<rparr>))"

text \<open>
  \<^verbatim>\<open>
  loadMIDI(midi) {
      if (typeof this.seq === "undefined") {
          this.seq = new Sequencer([midi], this.synth, { autoPlay: false });
      } else {
          this.seq.loadNewSongList([midi]);
      }
      this.midi = midi;
  }\<close>
\<close>

definition loadMIDI :: "BasicMIDI \<Rightarrow> SpessaSynthPlayer \<Rightarrow> SpessaSynthPlayer" where
  "loadMIDI m p =
     p\<lparr>seq := Some (case seq p of None \<Rightarrow> newSequencer [m] | Some q \<Rightarrow> loadNewSongList [m] q),
       loadedMidi := Some m\<rparr>"

subsection \<open>The widget's state\<close>

text \<open>
  The fields of \<^verbatim>\<open>PlayerElement\<close>, its three attributes (\<open>src\<close>, \<open>soundFont\<close>, \<open>loop\<close>; an
  absent attribute is \<open>None\<close>, \<open>loop\<close> is \<^verbatim>\<open>getAttribute('loop') != null\<close>), and the parts of
  the controls the code reads and writes. \<open>playing\<close> is the field \<^verbatim>\<open>_playing\<close>.
  \<^verbatim>\<open>seekBar.value\<close> and \<^verbatim>\<open>seekBar.max\<close> are kept as the numbers that \<^verbatim>\<open>parseFloat\<close> reads back
  (the clamping an \<^verbatim>\<open>input type=range\<close> does is not modelled); a time label is kept as the
  number given to \<^verbatim>\<open>utils.formatTime\<close>. A loaded document \<open>ns\<close> carries the identity of its
  object, which \<^verbatim>\<open>this.ns !== ns\<close> compares.
\<close>

record PlayerElement =
  player :: "SpessaSynthPlayer option"
  soundfontBin :: "byte list option"
  ns :: "(nat \<times> BasicMIDI) option"
  seeking :: bool
  domInitialized :: bool
  initTimeout :: bool
  needInitNs :: bool
  playing :: bool
  src :: "string option"
  soundFont :: "string option"
  loop :: bool
  seekBarValue :: real
  seekBarMax :: real
  seekBarDisabled :: bool
  playButtonDisabled :: bool
  currentTimeLabel :: real
  totalTimeLabel :: real
  classList :: "string set"
  title :: "string option"

text \<open>The events the widget dispatches; \<open>Stop finished\<close> carries \<^verbatim>\<open>detail.finished\<close>.\<close>

datatype event = Load | Start | Stop bool | Loop | Note nat

text \<open>
  What a widget asks of the network, and what is waiting to resume: \<^verbatim>\<open>initPlayerNow\<close> is an
  \<^verbatim>\<open>async\<close> function that stops at each \<^verbatim>\<open>await\<close>, and \<^verbatim>\<open>initPlayer\<close> leaves a timer.
  A task names its widget; an interrupted \<^verbatim>\<open>initPlayerNow\<close> also keeps its local \<^verbatim>\<open>ns\<close>, and
  at \<^verbatim>\<open>await this.player.initPlayer()\<close> the identity of the player being initialised and
  whether \<^verbatim>\<open>initPlayer\<close> itself waits for the worklet module.
\<close>

datatype request = FetchSrc string | FetchSoundFont string

datatype task =
    Timer nat
  | AwaitSrc nat
  | AwaitSoundFont nat "nat \<times> BasicMIDI"
  | AwaitInit nat "nat \<times> BasicMIDI" nat bool

text \<open>
  The page: the widgets by identity, the module variable \<^verbatim>\<open>playingPlayer\<close>, the log of the
  \<^verbatim>\<open>dispatchEvent\<close> calls (oldest first; listeners are outside the model), the log of the
  \<^verbatim>\<open>fetch\<close> calls, the tasks waiting to resume, whether the static
  \<^verbatim>\<open>SpessaSynthPlayer.context\<close> is defined, and the next fresh object identity.
\<close>

record page =
  elements :: "nat \<Rightarrow> PlayerElement"
  playingPlayer :: "nat option"
  dispatched :: "(nat \<times> event) list"
  requests :: "(nat \<times> request) list"
  pending :: "task list"
  audioContext :: bool
  nextObjectId :: nat

text \<open>A call either returns or throws; both leave a page behind.\<close>

datatype outcome = Returns page | Throws page

definition after :: "outcome \<Rightarrow> page" where
  "after r = (case r of Returns g \<Rightarrow> g | Throws g \<Rightarrow> g)"

definition update :: "nat \<Rightarrow> (PlayerElement \<Rightarrow> PlayerElement) \<Rightarrow> page \<Rightarrow> page" where
  "update w f g = g\<lparr>elements := (elements g)(w := f (elements g w))\<rparr>"

definition dispatchEvent :: "nat \<Rightarrow> event \<Rightarrow> page \<Rightarrow> page" where
  "dispatchEvent w ev g = g\<lparr>dispatched := dispatched g @ [(w, ev)]\<rparr>"

subsection \<open>\<^verbatim>\<open>set currentTime\<close>\<close>

text \<open>
  \<^verbatim>\<open>
  set currentTime(value) {
      this.seekBar.value = String(value);
      this.currentTimeLabel.textContent = utils.formatTime(this.currentTime);
      if (this.player && this.player.isPlaying) {
          this.player.currentTime = value;
      }
  }\<close>
\<close>

definition set_currentTime :: "nat \<Rightarrow> real \<Rightarrow> page \<Rightarrow> outcome" where
  "set_currentTime w v g =
     (let g1 = update w (\<lambda>el. el\<lparr>seekBarValue := v, currentTimeLabel := v\<rparr>) g
      in case player (elements g1 w) of
           None \<Rightarrow> Returns g1
         | Some p \<Rightarrow>
             (case isPlaying p of
                None \<Rightarrow> Throws g1
              | Some True \<Rightarrow> Returns (update w (\<lambda>el. el\<lparr>player := setCurrentTime v p\<rparr>) g1)
              | Some False \<Rightarrow> Returns g1))"

subsection \<open>\<^verbatim>\<open>handleStop\<close>, \<^verbatim>\<open>_start\<close> and \<^verbatim>\<open>stop\<close>\<close>

text \<open>The end of \<^verbatim>\<open>handleStop\<close>, after the \<^verbatim>\<open>if (finished)\<close> block:
  \<^verbatim>\<open>
  this.controlPanel.classList.remove('playing');
  this.controlPanel.classList.add('stopped');
  if (this._playing) {
      this._playing = false;
      this.dispatchEvent(new CustomEvent('stop', {detail: {finished}}));
  }\<close>
\<close>

definition markStopped :: "nat \<Rightarrow> bool \<Rightarrow> page \<Rightarrow> page" where
  "markStopped w finished g =
     (let g1 = update w (\<lambda>el. el\<lparr>classList := insert ''stopped'' (classList el - {''playing''})\<rparr>) g
      in if playing (elements g1 w)
         then dispatchEvent w (Stop finished) (update w (\<lambda>el. el\<lparr>playing := False\<rparr>) g1)
         else g1)"

text \<open>Whether the widget has a player whose sequencer exists and is paused: the states from
  which \<^verbatim>\<open>_start\<close> does its work.\<close>

definition idle :: "page \<Rightarrow> nat \<Rightarrow> bool" where
  "idle g w = (case player (elements g w) of None \<Rightarrow> False | Some p \<Rightarrow> isPlaying p = Some False)"

text \<open>
  \<^verbatim>\<open>
  handleStop(finished = false) {
      if (finished) {
          if (this.loop) { this.currentTime = 0; this._start(true); return; }
          this.currentTime = this.duration;
      }
      ... (markStopped)
  }
  _start(looped = false) {
      (async () => {
          if (this.player) {
              if (this.player.isPlaying === false) {
                  if (playingPlayer && playingPlayer.playing && !(playingPlayer == this && looped)) {
                      playingPlayer.stop();
                  }
                  playingPlayer = this;
                  this._playing = true;
                  this.currentTime = 0;
                  this.controlPanel.classList.remove('stopped');
                  this.controlPanel.classList.add('playing');
                  try {
                      this.player.play();
                      if (!looped) { this.dispatchEvent(new CustomEvent('start')); }
                      else { this.dispatchEvent(new CustomEvent('loop')); }
                      this.handleStop(true);
                  } catch (error) { this.handleStop(); throw error; }
              } else if (!this.player.isPlaying) { this.player.play(); }
          }
      })();
  }
  stop() {
      if (this.player && this.player.isPlaying) { this.player.pause(); }
      this.handleStop(false);
  }\<close>
  \<^verbatim>\<open>_start\<close> is named \<open>p_start\<close>. Its body is an \<^verbatim>\<open>async\<close> function without \<^verbatim>\<open>await\<close>, called at
  once: it runs to its end before \<^verbatim>\<open>_start\<close> returns, and what it throws rejects a promise
  nobody reads, so \<open>p_start\<close> always returns. The three functions call each other.
\<close>

function handleStop :: "nat \<Rightarrow> bool \<Rightarrow> page \<Rightarrow> outcome"
  and p_start :: "nat \<Rightarrow> bool \<Rightarrow> page \<Rightarrow> page"
  and stop :: "nat \<Rightarrow> page \<Rightarrow> outcome"
where
  "handleStop w finished g =
     (if finished then
        (if loop (elements g w) then
           (case set_currentTime w 0 g of
              Throws g' \<Rightarrow> Throws g'
            | Returns g1 \<Rightarrow> Returns (p_start w True g1))
         else
           (case set_currentTime w (seekBarMax (elements g w)) g of
              Throws g' \<Rightarrow> Throws g'
            | Returns g1 \<Rightarrow> Returns (markStopped w finished g1)))
      else Returns (markStopped w finished g))"
| "p_start w looped g =
     (case player (elements g w) of
        None \<Rightarrow> g
      | Some p \<Rightarrow>
          (case isPlaying p of
             None \<Rightarrow> g
           | Some True \<Rightarrow> g
           | Some False \<Rightarrow>
               (case (case playingPlayer g of
                        None \<Rightarrow> Returns g
                      | Some pp \<Rightarrow>
                          if playing (elements g pp) \<and> \<not> (pp = w \<and> looped)
                          then stop pp g else Returns g) of
                  Throws g' \<Rightarrow> g'
                | Returns g1 \<Rightarrow>
                    (case set_currentTime w 0
                            ((update w (\<lambda>el. el\<lparr>playing := True\<rparr>) g1)\<lparr>playingPlayer := Some w\<rparr>) of
                       Throws g' \<Rightarrow> g'
                     | Returns g3 \<Rightarrow>
                         (let g4 = update w (\<lambda>el. el\<lparr>classList :=
                                      insert ''playing'' (classList el - {''stopped''})\<rparr>) g3
                          in case Option.bind (player (elements g4 w)) play of
                               None \<Rightarrow> after (handleStop w False g4)
                             | Some p5 \<Rightarrow>
                                 (case handleStop w True
                                         (dispatchEvent w (if looped then Loop else Start)
                                            (update w (\<lambda>el. el\<lparr>player := Some p5\<rparr>) g4)) of
                                    Returns g7 \<Rightarrow> g7
                                  | Throws g7 \<Rightarrow> after (handleStop w False g7)))))))"
| "stop w g =
     (case player (elements g w) of
        None \<Rightarrow> handleStop w False g
      | Some p \<Rightarrow>
          (case isPlaying p of
             None \<Rightarrow> Throws g
           | Some True \<Rightarrow> handleStop w False (update w (\<lambda>el. el\<lparr>player := pause p\<rparr>) g)
           | Some False \<Rightarrow> handleStop w False g))"
  by pat_completeness auto

lemma idle_set_currentTime:
  "idle (after (set_currentTime w v g)) w' = idle g w'"
  by (auto simp: set_currentTime_def idle_def update_def after_def isPlaying_def setCurrentTime_def Let_def
      split: option.splits bool.splits)

lemma play_not_idle: "play p = Some p' \<Longrightarrow> isPlaying p' = Some True"
  by (auto simp: play_def isPlaying_def split: option.splits)

lemma idle_after_Returns:
  "set_currentTime w v g = Returns g1 \<Longrightarrow> idle g1 w' = idle g w'"
  using idle_set_currentTime [of w v g w'] by (simp add: after_def)

lemma bind_play_not_idle: "Option.bind x play = Some p' \<Longrightarrow> isPlaying p' = Some True"
  by (cases x) (auto dest: play_not_idle)

lemma idle_dispatchEvent [simp]: "idle (dispatchEvent w ev g) w' = idle g w'"
  by (simp add: idle_def dispatchEvent_def)

lemma not_idle_player_update:
  "isPlaying p = Some True \<Longrightarrow> \<not> idle (update w (\<lambda>el. el\<lparr>player := Some p\<rparr>) g) w"
  by (simp add: idle_def update_def)

lemma idleI: "player (elements g w) = Some p \<Longrightarrow> isPlaying p = Some False \<Longrightarrow> idle g w"
  by (simp add: idle_def)

termination handleStop
proof (relation "measure (\<lambda>x. case x of
            Inl (w, finished, g) \<Rightarrow> if finished then (if idle g w then 5 else 2) else 0
          | Inr (Inl (w, looped, g)) \<Rightarrow> if idle g w then 4 else 1
          | Inr (Inr (w, g)) \<Rightarrow> 1)", goal_cases)
  case 1
  show ?case by simp
next
  case (2 w finished g g1)
  then show ?case by (simp add: idle_after_Returns)
next
  case (3 w looped g p b pp)
  then show ?case by (simp add: idleI)
next
  case 4
  then show ?case by (simp add: idleI)
next
  case (5 w looped g p b g1 g3 g4 p5)
  from 5 have "isPlaying p5 = Some True" by (auto intro: bind_play_not_idle)
  then have "\<not> idle (update w (\<lambda>el. el\<lparr>player := Some p5\<rparr>) g4) w"
    by (rule not_idle_player_update)
  moreover from 5 have "idle g w" by (simp add: idle_def)
  ultimately show ?case by simp
next
  case 6
  then show ?case by (simp add: idleI)
next
  case 7
  then show ?case by simp
next
  case 8
  then show ?case by simp
next
  case 9
  then show ?case by simp
qed

text \<open>\<^verbatim>\<open>start() { this._start(); }\<close>, named \<open>startPlayer\<close>.\<close>

definition startPlayer :: "nat \<Rightarrow> page \<Rightarrow> page" where
  "startPlayer w g = p_start w False g"

subsection \<open>The seek bar and the note callback\<close>

text \<open>
  The listeners that \<^verbatim>\<open>connectedCallback\<close> adds to the seek bar. The browser has stored the
  new position in \<^verbatim>\<open>seekBar.value\<close> (\<open>moveSeekBar\<close>) before it fires \<^verbatim>\<open>input\<close> (while the user
  drags) and \<^verbatim>\<open>change\<close> (when the user releases).
  \<^verbatim>\<open>
  this.seekBar.addEventListener('input', () => {
      this.seeking = true;
      if (this.player && this.player.isPlaying) { this.player.pause(); }
  });
  this.seekBar.addEventListener('change', () => {
      const time = this.currentTime;
      this.currentTimeLabel.textContent = utils.formatTime(time);
      if (this.player) {
          if (this.player.isPlaying) {
              this.player.currentTime = time;
              if (!this.player.isPlaying) { this.player.play(); }
          }
      }
      this.seeking = false;
  });\<close>
\<close>

definition moveSeekBar :: "nat \<Rightarrow> real \<Rightarrow> page \<Rightarrow> page" where
  "moveSeekBar w v g = update w (\<lambda>el. el\<lparr>seekBarValue := v\<rparr>) g"

definition onSeekBarInput :: "nat \<Rightarrow> page \<Rightarrow> outcome" where
  "onSeekBarInput w g =
     (let g1 = update w (\<lambda>el. el\<lparr>seeking := True\<rparr>) g
      in case player (elements g1 w) of
           None \<Rightarrow> Returns g1
         | Some p \<Rightarrow>
             (case isPlaying p of
                None \<Rightarrow> Throws g1
              | Some True \<Rightarrow> Returns (update w (\<lambda>el. el\<lparr>player := pause p\<rparr>) g1)
              | Some False \<Rightarrow> Returns g1))"

definition onSeekBarChange :: "nat \<Rightarrow> page \<Rightarrow> outcome" where
  "onSeekBarChange w g =
     (let time = seekBarValue (elements g w);
          g1 = update w (\<lambda>el. el\<lparr>currentTimeLabel := time\<rparr>) g;
          done = (\<lambda>g'. Returns (update w (\<lambda>el. el\<lparr>seeking := False\<rparr>) g'))
      in case player (elements g1 w) of
           None \<Rightarrow> done g1
         | Some p \<Rightarrow>
             (case isPlaying p of
                None \<Rightarrow> Throws g1
              | Some False \<Rightarrow> done g1
              | Some True \<Rightarrow>
                  (case setCurrentTime time p of
                     None \<Rightarrow> Throws g1
                   | Some p1 \<Rightarrow>
                       (case isPlaying p1 of
                          None \<Rightarrow> Throws (update w (\<lambda>el. el\<lparr>player := Some p1\<rparr>) g1)
                        | Some True \<Rightarrow> done (update w (\<lambda>el. el\<lparr>player := Some p1\<rparr>) g1)
                        | Some False \<Rightarrow> done (update w (\<lambda>el. el\<lparr>player := play p1\<rparr>) g1)))))"

text \<open>
  \<^verbatim>\<open>
  noteCallback(note) {
      if (!this.playing) { return; }
      this.dispatchEvent(new CustomEvent('note', {detail: {note}}));
      if (this.seeking) { return; }
      this.seekBar.value = String(this.player.currentTime);
      this.currentTimeLabel.textContent = utils.formatTime(this.player.currentTime);
  }\<close>
  The argument is the pitch of the note.
\<close>

definition noteCallback :: "nat \<Rightarrow> nat \<Rightarrow> page \<Rightarrow> outcome" where
  "noteCallback w note g =
     (if \<not> playing (elements g w) then Returns g
      else
        (let g1 = dispatchEvent w (Note note) g
         in if seeking (elements g1 w) then Returns g1
            else (case Option.bind (player (elements g1 w)) getCurrentTime of
                    None \<Rightarrow> Throws g1
                  | Some t \<Rightarrow> Returns (update w (\<lambda>el. el\<lparr>seekBarValue := t, currentTimeLabel := t\<rparr>) g1))))"

subsection \<open>Loading: \<^verbatim>\<open>initPlayer\<close> and \<^verbatim>\<open>initPlayerNow\<close>\<close>

definition DEFAULT_SOUNDFONT :: string where
  "DEFAULT_SOUNDFONT = ''https://spessasus.github.io/SpessaSynth/GeneralUserGS.sf3''"

text \<open>\<^verbatim>\<open>setLoading\<close>, \<^verbatim>\<open>setLoaded\<close> and \<^verbatim>\<open>setError\<close>, on the widget's controls.\<close>

definition setLoading :: "PlayerElement \<Rightarrow> PlayerElement" where
  "setLoading el =
     el\<lparr>playButtonDisabled := True, seekBarDisabled := True,
        classList := insert ''loading'' (insert ''frozen'' (classList el - {''error''})),
        title := None\<rparr>"

definition setLoaded :: "PlayerElement \<Rightarrow> PlayerElement" where
  "setLoaded el =
     el\<lparr>classList := classList el - {''loading'', ''frozen''},
        playButtonDisabled := False, seekBarDisabled := False\<rparr>"

definition setError :: "string \<Rightarrow> PlayerElement \<Rightarrow> PlayerElement" where
  "setError error el =
     el\<lparr>playButtonDisabled := True, seekBarDisabled := True,
        classList := insert ''error'' (insert ''frozen''
                       (classList el - {''loading'', ''stopped'', ''playing''})),
        title := Some error\<rparr>"

text \<open>The \<^verbatim>\<open>catch\<close> of \<^verbatim>\<open>initPlayerNow\<close>: \<^verbatim>\<open>this.setError(String(error)); throw error;\<close>. The
  text of the error is not modelled; the rethrown error rejects the promise of the call.\<close>

definition failLoad :: "nat \<Rightarrow> page \<Rightarrow> page" where
  "failLoad w g = update w (setError ''error'') g"

text \<open>
  The end of \<^verbatim>\<open>initPlayerNow\<close>, after \<^verbatim>\<open>await this.player.initPlayer()\<close>:
  \<^verbatim>\<open>
  this.player.loadMIDI(this.ns);
  if (this.ns !== ns) { return; }
  this.setLoaded();
  this.dispatchEvent(new CustomEvent('load'));\<close>
  \<open>moduleLoading\<close> says that \<^verbatim>\<open>initPlayer\<close> was waiting for \<^verbatim>\<open>addModule\<close>; then it still has to
  build the synthesizer of its own player (\<open>pid\<close>), or it fails with the module.
  \<^verbatim>\<open>this.player\<close> and \<^verbatim>\<open>this.ns\<close> are read again here. With \<^verbatim>\<open>this.ns\<close> null the sequencer is
  handed a null document; the model takes that as an exception of the library.
\<close>

definition resumeInit :: "nat \<Rightarrow> nat \<times> BasicMIDI \<Rightarrow> nat \<Rightarrow> bool \<Rightarrow> bool \<Rightarrow> page \<Rightarrow> page" where
  "resumeInit w localNs pid moduleLoading ok g =
     (if moduleLoading \<and> \<not> ok then failLoad w g
      else
        (let g1 = (if moduleLoading
                   then update w (\<lambda>el. case player el of
                                          None \<Rightarrow> el
                                        | Some p \<Rightarrow> if objectId p = pid
                                                    then el\<lparr>player := Some (p\<lparr>synth := Some (soundfontBuffer p)\<rparr>)\<rparr>
                                                    else el) g
                   else g)
         in case (player (elements g1 w), ns (elements g1 w)) of
              (Some p, Some d) \<Rightarrow>
                (let g2 = update w (\<lambda>el. el\<lparr>player := Some (loadMIDI (snd d) p)\<rparr>) g1
                 in if fst d \<noteq> fst localNs then g2
                    else dispatchEvent w Load (update w setLoaded g2))
            | _ \<Rightarrow> failLoad w g1))"

text \<open>
  \<^verbatim>\<open>
  this.player = new SpessaSynthPlayer(this.soundfontBin);
  await this.player.initPlayer();\<close>
  with
  \<^verbatim>\<open>
  async initPlayer() {
      if (typeof SpessaSynthPlayer.context === "undefined") {
          const context = new AudioContext();
          SpessaSynthPlayer.context = context;
          await context.audioWorklet.addModule(...);
      }
      this.synth = new Synthetizer(SpessaSynthPlayer.context.destination, this.soundfontBuffer);
  }\<close>
  \<open>bin\<close> is the value of \<^verbatim>\<open>this.soundfontBin\<close>, which the caller has just read or assigned.
\<close>

definition createPlayer :: "nat \<Rightarrow> nat \<times> BasicMIDI \<Rightarrow> byte list \<Rightarrow> page \<Rightarrow> page" where
  "createPlayer w localNs bin g =
     (let pid = nextObjectId g;
          p = \<lparr>objectId = pid, soundfontBuffer = bin, synth = None, seq = None, loadedMidi = None\<rparr>;
          g1 = (update w (\<lambda>el. el\<lparr>player := Some p\<rparr>) g)\<lparr>nextObjectId := pid + 1\<rparr>
      in if audioContext g1
         then (update w (\<lambda>el. el\<lparr>player := Some (p\<lparr>synth := Some bin\<rparr>)\<rparr>) g1)
                \<lparr>pending := pending g1 @ [AwaitInit w localNs pid False]\<rparr>
         else g1\<lparr>audioContext := True, pending := pending g1 @ [AwaitInit w localNs pid True]\<rparr>)"

text \<open>
  The middle of \<^verbatim>\<open>initPlayerNow\<close>, from \<^verbatim>\<open>ns = this.ns\<close> to the sound font:
  \<^verbatim>\<open>
  ns = this.ns;
  if (ns) { this.seekBar.max = String(ns.duration); this.totalTimeLabel.textContent = ...; }
  else { this.seekBar.max = '0'; this.totalTimeLabel.textContent = utils.formatTime(0); return; }
  let soundFont = this.soundFont;
  if (soundFont === null) { console.error("Spessasynth requires a soundfont."); return; }
  else {
      if (soundFont === "") { soundFont = DEFAULT_SOUNDFONT; }
      if (typeof this.soundfontBin === "undefined") {
          this.soundfontBin = await (await fetch(soundFont)).arrayBuffer();
      }
      this.player = new SpessaSynthPlayer(this.soundfontBin);
      ...\<close>
\<close>

definition afterNs :: "nat \<Rightarrow> page \<Rightarrow> page" where
  "afterNs w g =
     (case ns (elements g w) of
        None \<Rightarrow> update w (\<lambda>el. el\<lparr>seekBarMax := 0, totalTimeLabel := 0\<rparr>) g
      | Some d \<Rightarrow>
          (let g1 = update w (\<lambda>el. el\<lparr>seekBarMax := duration (snd d),
                                      totalTimeLabel := duration (snd d)\<rparr>) g
           in case soundFont (elements g1 w) of
                None \<Rightarrow> g1
              | Some sf \<Rightarrow>
                  (let url = (if sf = [] then DEFAULT_SOUNDFONT else sf)
                   in case soundfontBin (elements g1 w) of
                        None \<Rightarrow> g1\<lparr>requests := requests g1 @ [(w, FetchSoundFont url)],
                                   pending := pending g1 @ [AwaitSoundFont w d]\<rparr>
                      | Some bin \<Rightarrow> createPlayer w d bin g1)))"

text \<open>The fetch of the sound font comes back: with the buffer, which is stored in
  \<^verbatim>\<open>this.soundfontBin\<close>, or with a failure (\<open>None\<close>).\<close>

definition resumeSoundFont :: "nat \<Rightarrow> nat \<times> BasicMIDI \<Rightarrow> byte list option \<Rightarrow> page \<Rightarrow> page" where
  "resumeSoundFont w localNs answer g =
     (case answer of
        None \<Rightarrow> failLoad w g
      | Some buf \<Rightarrow> createPlayer w localNs buf (update w (\<lambda>el. el\<lparr>soundfontBin := Some buf\<rparr>) g))"

text \<open>
  After the source is there (or was not asked for), still under \<^verbatim>\<open>if (initNs)\<close>:
  \<^verbatim>\<open>
  this.currentTime = 0;
  if (!this.ns) { this.setError('No content loaded'); }\<close>
\<close>

definition afterSrc :: "nat \<Rightarrow> page \<Rightarrow> page" where
  "afterSrc w g =
     (case set_currentTime w 0 g of
        Throws g' \<Rightarrow> failLoad w g'
      | Returns g1 \<Rightarrow>
          afterNs w (if ns (elements g1 w) = None
                     then update w (setError ''No content loaded'') g1 else g1))"

text \<open>
  The fetch of the source comes back:
  \<^verbatim>\<open>
  const midiBuf = await (await fetch(this.src)).arrayBuffer();
  this.ns = null;
  this.ns = new MIDI(midiBuf, "unnamed");\<close>
  The fetch fails, or the decoder throws, or there is a document, which is a new object.
\<close>

datatype sourceAnswer = FetchFailed | Undecodable | Decoded BasicMIDI

definition resumeSrc :: "nat \<Rightarrow> sourceAnswer \<Rightarrow> page \<Rightarrow> page" where
  "resumeSrc w answer g =
     (case answer of
        FetchFailed \<Rightarrow> failLoad w g
      | Undecodable \<Rightarrow> failLoad w (update w (\<lambda>el. el\<lparr>ns := None\<rparr>) g)
      | Decoded d \<Rightarrow>
          afterSrc w ((update w (\<lambda>el. el\<lparr>ns := Some (nextObjectId g, d)\<rparr>) g)
                        \<lparr>nextObjectId := nextObjectId g + 1\<rparr>))"

text \<open>
  The start of \<^verbatim>\<open>initPlayerNow\<close>, up to its first \<^verbatim>\<open>await\<close>:
  \<^verbatim>\<open>
  async initPlayerNow(initNs = true) {
      this.initTimeout = null;
      this.needInitNs = false;
      if (!this.domInitialized) { return; }
      try {
          let ns = null;
          if (initNs) {
              if (this.src) { const midiBuf = await (await fetch(this.src)).arrayBuffer(); ... }
              ...\<close>
  An empty \<^verbatim>\<open>src\<close> is falsy.
\<close>

definition initPlayerNow :: "nat \<Rightarrow> bool \<Rightarrow> page \<Rightarrow> page" where
  "initPlayerNow w initNs g =
     (let g0 = update w (\<lambda>el. el\<lparr>initTimeout := False, needInitNs := False\<rparr>) g
      in if \<not> domInitialized (elements g0 w) then g0
         else if initNs then
           (case src (elements g0 w) of
              None \<Rightarrow> afterSrc w g0
            | Some url \<Rightarrow>
                if url = [] then afterSrc w g0
                else g0\<lparr>requests := requests g0 @ [(w, FetchSrc url)],
                        pending := pending g0 @ [AwaitSrc w]\<rparr>)
         else afterNs w g0)"

text \<open>
  \<^verbatim>\<open>
  initPlayer(initNs = true) {
      this.needInitNs = this.needInitNs || initNs;
      if (this.initTimeout == null) {
          this.stop();
          this.setLoading();
          this.initTimeout = window.setTimeout(() => this.initPlayerNow(this.needInitNs));
      }
  }\<close>
\<close>

definition initPlayer :: "nat \<Rightarrow> bool \<Rightarrow> page \<Rightarrow> outcome" where
  "initPlayer w initNs g =
     (let g1 = update w (\<lambda>el. el\<lparr>needInitNs := needInitNs el \<or> initNs\<rparr>) g
      in if initTimeout (elements g1 w) then Returns g1
         else (case stop w g1 of
                 Throws g' \<Rightarrow> Throws g'
               | Returns g2 \<Rightarrow>
                   Returns ((update w (\<lambda>el. (setLoading el)\<lparr>initTimeout := True\<rparr>) g2)
                              \<lparr>pending := pending g2 @ [Timer w]\<rparr>)))"

text \<open>The timer of \<^verbatim>\<open>initPlayer\<close> fires: \<^verbatim>\<open>this.initPlayerNow(this.needInitNs)\<close>.\<close>

definition fireTimer :: "nat \<Rightarrow> page \<Rightarrow> page" where
  "fireTimer w g = initPlayerNow w (needInitNs (elements g w)) g"

text \<open>
  \<^verbatim>\<open>connectedCallback\<close> (the listeners it adds are the functions above) and \<^verbatim>\<open>reload\<close>.
  \<^verbatim>\<open>
  connectedCallback() {
      if (this.domInitialized) { return; }
      this.domInitialized = true;
      ...
      this.initPlayerNow();
  }
  reload() { this.initPlayerNow(); }\<close>
\<close>

definition connectedCallback :: "nat \<Rightarrow> page \<Rightarrow> page" where
  "connectedCallback w g =
     (if domInitialized (elements g w) then g
      else initPlayerNow w True (update w (\<lambda>el. el\<lparr>domInitialized := True\<rparr>) g))"

definition reload :: "nat \<Rightarrow> page \<Rightarrow> page" where
  "reload w g = initPlayerNow w True g"

text \<open>
  The attributes. Setting an observed attribute runs \<^verbatim>\<open>attributeChangedCallback\<close>, which calls
  \<^verbatim>\<open>initPlayer()\<close> for \<^verbatim>\<open>sound-font\<close> and \<^verbatim>\<open>src\<close>; removing an attribute that is absent runs
  nothing.
  \<^verbatim>\<open>
  set soundFont(value) { this.setOrRemoveAttribute('sound-font', value); }
  set src(value) {
      this.ns = null;
      this.setOrRemoveAttribute('src', value);
      this.initPlayer();
  }
  set loop(value) { this.setOrRemoveAttribute('loop', value ? '' : null); }\<close>
\<close>

definition set_soundFont :: "nat \<Rightarrow> string option \<Rightarrow> page \<Rightarrow> outcome" where
  "set_soundFont w v g =
     (if v = None \<and> soundFont (elements g w) = None then Returns g
      else initPlayer w True (update w (\<lambda>el. el\<lparr>soundFont := v\<rparr>) g))"

definition set_src :: "nat \<Rightarrow> string option \<Rightarrow> page \<Rightarrow> outcome" where
  "set_src w v g =
     (let g1 = update w (\<lambda>el. el\<lparr>ns := None\<rparr>) g;
          r = (if v = None \<and> src (elements g1 w) = None then Returns g1
               else initPlayer w True (update w (\<lambda>el. el\<lparr>src := v\<rparr>) g1))
      in case r of Throws g' \<Rightarrow> Throws g' | Returns g2 \<Rightarrow> initPlayer w True g2)"

definition set_loop :: "nat \<Rightarrow> bool \<Rightarrow> page \<Rightarrow> page" where
  "set_loop w v g = update w (\<lambda>el. el\<lparr>loop := v\<rparr>) g"

subsection \<open>What can happen to a page\<close>

text \<open>
  The calls of the host page and the user, and the deliveries of the browser: a timer fires
  or an awaited promise settles, and the task at that place of \<open>pending\<close> resumes. A delivery
  names the place and brings the answer the task waits for; \<open>perform\<close> is \<open>None\<close> when there
  is no such task or the answer is not of its kind.
\<close>

datatype answer =
    Fired
  | Source sourceAnswer
  | SoundFontBuffer "byte list option"
  | Initialised bool

datatype action =
    Connect nat
  | Reload nat
  | SetSoundFont nat "string option"
  | SetSrc nat "string option"
  | SetLoop nat bool
  | SetCurrentTime nat real
  | StartPlayer nat
  | StopPlayer nat
  | SeekInput nat real
  | SeekChange nat real
  | NoteCallback nat nat
  | Deliver nat answer

definition resume :: "task \<Rightarrow> answer \<Rightarrow> page \<Rightarrow> page option" where
  "resume t a g =
     (case (t, a) of
        (Timer w, Fired) \<Rightarrow> Some (fireTimer w g)
      | (AwaitSrc w, Source s) \<Rightarrow> Some (resumeSrc w s g)
      | (AwaitSoundFont w d, SoundFontBuffer b) \<Rightarrow> Some (resumeSoundFont w d b g)
      | (AwaitInit w d pid m, Initialised ok) \<Rightarrow> Some (resumeInit w d pid m ok g)
      | _ \<Rightarrow> None)"

definition perform :: "action \<Rightarrow> page \<Rightarrow> page option" where
  "perform act g =
     (case act of
        Connect w \<Rightarrow> Some (connectedCallback w g)
      | Reload w \<Rightarrow> Some (reload w g)
      | SetSoundFont w v \<Rightarrow> Some (after (set_soundFont w v g))
      | SetSrc w v \<Rightarrow> Some (after (set_src w v g))
      | SetLoop w v \<Rightarrow> Some (set_loop w v g)
      | SetCurrentTime w v \<Rightarrow> Some (after (set_currentTime w v g))
      | StartPlayer w \<Rightarrow> Some (startPlayer w g)
      | StopPlayer w \<Rightarrow> Some (after (stop w g))
      | SeekInput w v \<Rightarrow> Some (after (onSeekBarInput w (moveSeekBar w v g)))
      | SeekChange w v \<Rightarrow> Some (after (onSeekBarChange w (moveSeekBar w v g)))
      | NoteCallback w n \<Rightarrow> Some (after (noteCallback w n g))
      | Deliver i a \<Rightarrow>
          (if i < length (pending g)
           then resume (pending g ! i) a (g\<lparr>pending := take i (pending g) @ drop (Suc i) (pending g)\<rparr>)
           else None))"

fun performAll :: "action list \<Rightarrow> page \<Rightarrow> page option" where
  "performAll [] g = Some g"
| "performAll (act # acts) g =
     (case perform act g of None \<Rightarrow> None | Some g' \<Rightarrow> performAll acts g')"

text \<open>The sound-font fetches a widget has asked for, and whether one of them is still on
  its way.\<close>

definition soundFontRequests :: "page \<Rightarrow> nat \<Rightarrow> string list" where
  "soundFontRequests g w =
     concat (map (\<lambda>(w', r). case r of FetchSoundFont url \<Rightarrow> if w' = w then [url] else []
                                     | FetchSrc _ \<Rightarrow> [])
                 (requests g))"

definition fetchingSoundFont :: "page \<Rightarrow> nat \<Rightarrow> bool" where
  "fetchingSoundFont g w =
     list_ex (\<lambda>t. case t of AwaitSoundFont w' _ \<Rightarrow> w' = w | _ \<Rightarrow> False) (pending g)"

subsection \<open>Predicates for the properties of loading\<close>

text \<open>What the sound-font cache is about: per widget the cached buffer and the buffer its
  player was built from, the waiting tasks and the fetches asked for.\<close>

definition lv :: "page \<Rightarrow> (nat \<Rightarrow> byte list option \<times> byte list option) \<times> task list \<times> (nat \<times> request) list" where
  "lv g = (\<lambda>w. (soundfontBin (elements g w), map_option soundfontBuffer (player (elements g w))),
           pending g, requests g)"

text \<open>\<open>cached\<close>: the widget's cache holds \<open>b\<close>, its player (if it has one) was built from
  \<open>b\<close>, no fetch of a sound font for it is on its way, and its sound-font fetches so far are
  \<open>n\<close>. \<open>filled\<close>: the cache holds something, and the fetches so far are \<open>n\<close>.\<close>

definition cached :: "byte list \<Rightarrow> string list \<Rightarrow> nat \<Rightarrow> page \<Rightarrow> bool" where
  "cached b n w g \<longleftrightarrow>
     soundfontBin (elements g w) = Some b
     \<and> (\<forall>p. player (elements g w) = Some p \<longrightarrow> soundfontBuffer p = b)
     \<and> \<not> fetchingSoundFont g w
     \<and> soundFontRequests g w = n"

definition filled :: "string list \<Rightarrow> nat \<Rightarrow> page \<Rightarrow> bool" where
  "filled n w g \<longleftrightarrow> soundfontBin (elements g w) \<noteq> None \<and> soundFontRequests g w = n"

text \<open>The widgets that have dispatched a \<^verbatim>\<open>loop\<close> event so far, oldest first.\<close>

definition loopEvents :: "page \<Rightarrow> nat list" where
  "loopEvents g = map fst (filter (\<lambda>x. snd x = Loop) (dispatched g))"

section \<open>Example inputs\<close>

subsection \<open>Documents\<close>

text \<open>The scenario of the spec (section 8).\<close>

definition scenario :: "MidiMessage list" where
  "scenario =
     [\<lparr>ticks = 0, messageStatusByte = 0x51, messageData = fromBuffer [0x07, 0xA1, 0x20]\<rparr>,
      \<lparr>ticks = 0, messageStatusByte = 0x90, messageData = fromBuffer [60, 100]\<rparr>,
      \<lparr>ticks = 480, messageStatusByte = 0x80, messageData = fromBuffer [60, 0]\<rparr>]"

text \<open>A note that sounds across a change of tempo: 480 ticks at 120 BPM, then 480 ticks at
  1000000 microseconds per quarter (60 BPM). \<open>before_tempo_change\<close> is the state of the loop
  when it reaches the tempo event: the note is open, the clock stands at \<open>1/2\<close>.\<close>

definition tempo_change :: "MidiMessage list" where
  "tempo_change =
     [\<lparr>ticks = 0, messageStatusByte = 0x90, messageData = fromBuffer [60, 100]\<rparr>,
      \<lparr>ticks = 480, messageStatusByte = 0x51, messageData = fromBuffer [0x0F, 0x42, 0x40]\<rparr>,
      \<lparr>ticks = 960, messageStatusByte = 0x80, messageData = fromBuffer [60, 0]\<rparr>]"

definition before_tempo_change :: extractor where
  "before_tempo_change =
     (snd (processEvent 480 (tempo_change ! 0) (init 480)))\<lparr>elapsedTime := 1 / 2\<rparr>"





subsection \<open>Example pages\<close>

text \<open>A widget as its constructor leaves it, with the attributes it is given.\<close>

definition newElement :: "string option \<Rightarrow> string option \<Rightarrow> bool \<Rightarrow> PlayerElement" where
  "newElement srcAttr soundFontAttr loopAttr =
     \<lparr>player = None, soundfontBin = None, ns = None, seeking = False, domInitialized = False,
      initTimeout = False, needInitNs = False, playing = False,
      src = srcAttr, soundFont = soundFontAttr, loop = loopAttr,
      seekBarValue = 0, seekBarMax = 0, seekBarDisabled = False, playButtonDisabled = False,
      currentTimeLabel = 0, totalTimeLabel = 0, classList = {''stopped''}, title = None\<rparr>"

text \<open>A player with a loaded document: the sequencer paused or not, at a position.\<close>

definition loadedPlayer :: "bool \<Rightarrow> real \<Rightarrow> SpessaSynthPlayer" where
  "loadedPlayer isPaused t =
     \<lparr>objectId = 0, soundfontBuffer = [], synth = Some [],
      seq = Some \<lparr>paused = isPaused, position = t, songList = []\<rparr>, loadedMidi = None\<rparr>"

text \<open>A loaded widget of duration 20 whose seek bar shows the backend's position.\<close>

definition loadedElement :: "bool \<Rightarrow> bool \<Rightarrow> bool \<Rightarrow> real \<Rightarrow> PlayerElement" where
  "loadedElement loopAttr isPlayingFlag isPaused t =
     (newElement None (Some []) loopAttr)
       \<lparr>player := Some (loadedPlayer isPaused t), playing := isPlayingFlag,
        seekBarValue := t, seekBarMax := 20, currentTimeLabel := t, totalTimeLabel := 20\<rparr>"

text \<open>A page of one widget (number 0), and a page of two widgets (0 and 1).\<close>

definition onePage :: "PlayerElement \<Rightarrow> nat option \<Rightarrow> page" where
  "onePage el pp =
     \<lparr>elements = (\<lambda>_. el), playingPlayer = pp, dispatched = [], requests = [], pending = [],
      audioContext = False, nextObjectId = 1\<rparr>"

definition twoPage :: "PlayerElement \<Rightarrow> PlayerElement \<Rightarrow> nat option \<Rightarrow> page" where
  "twoPage a b pp =
     \<lparr>elements = (\<lambda>w. if w = 0 then a else b), playingPlayer = pp, dispatched = [],
      requests = [], pending = [], audioContext = False, nextObjectId = 1\<rparr>"

definition song :: BasicMIDI where
  "song = \<lparr>timeDivision = 480, duration = 20, tracks = []\<rparr>"

text \<open>A widget in the document, with a source and the default sound font, not yet loaded.\<close>

definition freshPage :: page where
  "freshPage = onePage (newElement (Some ''song.mid'') (Some []) False) None"

text \<open>A widget whose load has finished: the sound font \<open>[1, 2, 3]\<close> is cached and its
  player is built from it.\<close>

definition cachedPage :: page where
  "cachedPage =
     onePage ((loadedElement False False True 0)
                \<lparr>soundfontBin := Some [1, 2, 3], ns := Some (0, song), domInitialized := True,
                 player := Some ((loadedPlayer True 0)\<lparr>soundfontBuffer := [1, 2, 3]\<rparr>)\<rparr>) None"




section \<open>Properties of the extractor\<close>

subsection \<open>Basic facts\<close>

lemma channel_lt_16: "unat ((w :: byte) AND 0x0F) < 16"
proof -
  have "w AND 0x0F \<le> 0x0F" by (rule word_and_le1)
  then have "unat (w AND 0x0F) \<le> unat (0x0F :: byte)" by (simp add: word_le_nat_alt)
  then show ?thesis by simp
qed

lemma findIndex_Some:
  "findIndex P xs = Some i \<Longrightarrow> i < length xs \<and> P (xs ! i) \<and> (\<forall>j<i. \<not> P (xs ! j))"
proof (induction xs arbitrary: i)
  case Nil
  then show ?case by simp
next
  case (Cons x xs)
  show ?case
  proof (cases "P x")
    case True
    with Cons.prems show ?thesis by simp
  next
    case False
    with Cons.prems obtain k where k: "findIndex P xs = Some k" "i = Suc k" by auto
    from Cons.IH [OF k(1)] False k(2) show ?thesis
      by (auto simp: nth_Cons split: nat.splits)
  qed
qed

lemma findIndex_None: "findIndex P xs = None \<longleftrightarrow> (\<forall>x\<in>set xs. \<not> P x)"
  by (induction xs) auto

lemma noteOff_unfinished [simp]: "unfinished (noteOff p c s) = unfinished s - 1"
  by (simp add: noteOff_def Let_def split: option.splits)

lemma noteOff_frame [simp]:
  "noteTimes (noteOff p c s) = noteTimes s"
  "elapsedTime (noteOff p c s) = elapsedTime s"
  "oneTickToSeconds (noteOff p c s) = oneTickToSeconds s"
  "length (store (noteOff p c s)) = length (store s)"
  "length (unfinishedNotes (noteOff p c s)) = length (unfinishedNotes s)"
  by (simp_all add: noteOff_def Let_def split: option.splits)


lemma walk_preserves:
  assumes step: "\<And>e s. P s \<Longrightarrow> P (snd (processEvent td e s))"
      and adv: "\<And>s t. P s \<Longrightarrow> P (s\<lparr>elapsedTime := t\<rparr>)"
  shows "P s \<Longrightarrow> P (snd (walk td as (evs, s)))"
proof (induction as arbitrary: evs s)
  case Nil
  then show ?case by simp
next
  case (Cons a as)
  obtain e' s' where p: "processEvent td (evs ! a) s = (e', s')"
    by (cases "processEvent td (evs ! a) s")
  from step [OF Cons.prems, of "evs ! a"] p have s': "P s'" by simp
  show ?case
  proof (cases as)
    case Nil
    with p s' show ?thesis by simp
  next
    case (Cons b rest)
    from adv [OF s'] Cons.IH
    show ?thesis unfolding Cons by (simp add: p Let_def)
  qed
qed



lemma getTempo_frame [simp]:
  "ticks (snd (getTempo e)) = ticks e"
  "messageStatusByte (snd (getTempo e)) = messageStatusByte e"
  "messageData (snd (getTempo e)) = (fromBuffer (buffer (messageData e)))\<lparr>currentIndex := 3\<rparr>"
  by (simp_all add: getTempo_def readBytesAsUintBigEndian_def fromBuffer_def Let_def)


lemma processEvent_tempo:
  "messageStatusByte e = 0x51 \<Longrightarrow>
   processEvent td e s =
     (snd (getTempo e), s\<lparr>oneTickToSeconds := 60 / (fst (getTempo e) * real_of_int td)\<rparr>)"
  by (simp add: processEvent_def Let_def split: prod.splits)

lemma processEvent_other:
  "messageStatusByte e \<noteq> 0x51 \<Longrightarrow> fst (processEvent td e s) = e"
  by (simp add: processEvent_def Let_def split: prod.splits)

lemma processEvent_event:
  "fst (processEvent td e s) = (if messageStatusByte e = 0x51 then snd (getTempo e) else e)"
  by (simp add: processEvent_tempo processEvent_other)

lemma processEvent_ticks [simp]: "ticks (fst (processEvent td e s)) = ticks e"
  by (simp add: processEvent_event)

lemma nth_update_same_field:
  assumes "\<And>x. f (g x) = f x"
  shows "f (xs[i := g (xs ! i)] ! n) = f (xs ! n)"
proof (cases "i < length xs")
  case True
  then show ?thesis by (cases "i = n") (simp_all add: assms)
next
  case False
  then show ?thesis by (simp add: list_update_beyond)
qed

lemma noteOff_start [simp]: "start (store (noteOff p c s) ! n) = start (store s ! n)"
  by (simp add: noteOff_def Let_def nth_update_same_field [where f = start] split: option.splits)

lemma noteOff_midiNote [simp]: "midiNote (store (noteOff p c s) ! n) = midiNote (store s ! n)"
  by (simp add: noteOff_def Let_def nth_update_same_field [where f = midiNote] split: option.splits)

lemma processEvent_start:
  "n < length (store s) \<Longrightarrow> start (store (snd (processEvent td e s)) ! n) = start (store s ! n)"
  by (simp add: processEvent_def noteOn_def Let_def nth_append split: prod.splits)

lemma processEvent_store_length:
  "length (store s) \<le> length (store (snd (processEvent td e s)))"
  by (simp add: processEvent_def noteOn_def Let_def split: prod.splits)

lemma walk_start:
  "n < length (store s) \<Longrightarrow> start (store (snd (walk td refs (events, s))) ! n) = start (store s ! n)"
proof -
  assume n: "n < length (store s)"
  let ?P = "\<lambda>s' :: extractor. n < length (store s') \<and> start (store s' ! n) = start (store s ! n)"
  have "?P (snd (walk td refs (events, s)))"
  proof (rule walk_preserves [where P = ?P])
    fix e and s' :: extractor assume "?P s'"
    with processEvent_start [of n s' td e] processEvent_store_length [of s' td e]
    show "?P (snd (processEvent td e s'))" by simp
  qed (simp_all add: n)
  then show ?thesis by simp
qed

lemma walk_tempo_step:
  assumes "messageStatusByte (events ! a) = 0x51"
  shows "walk td (a # b # rest) (events, s) =
         walk td (b # rest)
           (events[a := snd (getTempo (events ! a))],
            s\<lparr>oneTickToSeconds := 60 / (fst (getTempo (events ! a)) * real_of_int td),
              elapsedTime := elapsedTime s
                + 60 / (fst (getTempo (events ! a)) * real_of_int td)
                  * real_of_int (ticks (events ! b) - ticks (events ! a))\<rparr>)"
proof -
  have "ticks (events[a := snd (getTempo (events ! a))] ! b) = ticks (events ! b)"
    using nth_update_same_field [of ticks "\<lambda>e. snd (getTempo e)" events a b]
    by simp
  then show ?thesis
    by (simp add: processEvent_tempo [OF assms] Let_def)
qed

lemma processEvent_factor:
  "messageStatusByte e \<noteq> 0x51 \<Longrightarrow>
   oneTickToSeconds (snd (processEvent td e s)) = oneTickToSeconds s"
  by (simp add: processEvent_def noteOn_def Let_def split: prod.splits)

lemma walk_tempo_last:
  "messageStatusByte (events ! a) = 0x51 \<Longrightarrow>
   walk td [a] (events, s) =
     (events[a := snd (getTempo (events ! a))],
      s\<lparr>oneTickToSeconds := 60 / (fst (getTempo (events ! a)) * real_of_int td)\<rparr>)"
  by (simp add: processEvent_tempo)

lemma getTempo_value:
  "buffer (messageData e) = b0 # b1 # b2 # bs \<Longrightarrow>
   getTempo e = (60000000 / real ((unat b0 * 256 + unat b1) * 256 + unat b2),
                 e\<lparr>messageData := (fromBuffer (b0 # b1 # b2 # bs))\<lparr>currentIndex := 3\<rparr>\<rparr>)"
  by (simp add: getTempo_def readBytesAsUintBigEndian_def byteAt_def fromBuffer_def upt_rec Let_def)

lemma factor_in_seconds:
  "0 < td \<Longrightarrow> 60 / (60000000 / real u * real_of_int td) = real u / (1000000 * real_of_int td)"
  by (cases "u = 0") (simp_all add: field_simps)

subsection \<open>Tempo changes\<close>

text \<open>
  C4. For a positive time division the factor starts at \<open>60 / (120 * timeDivision)\<close>. Take a
  tempo event (status byte \<open>0x51\<close>) whose buffer begins with the bytes \<open>b0\<close>, \<open>b1\<close>, \<open>b2\<close>, the
  microseconds per quarter note \<open>u = (b0 * 256 + b1) * 256 + b2\<close>. When the loop meets it
  and it is not the last event, the loop goes on with the new factor
  \<open>60 / (60000000 / u * timeDivision)\<close>, which is \<open>u / (1000000 * timeDivision)\<close> seconds per
  tick, and with the clock advanced by the new factor times the ticks to the next event:
  the clock as it stood at the event is kept, and the advance from the event's own tick
  already uses the new tempo. A tempo event that is the last event changes the factor only.
  An event with another status byte leaves the factor as it is. And the loop never changes
  the start of an interval that is already in the store.
\<close>

theorem tempo_change_applies_from_its_own_tick:
  "(0 < td \<longrightarrow> oneTickToSeconds (init td) = 60 / (120 * real_of_int td))
   \<and> (0 < td \<and> messageStatusByte (events ! a) = 0x51
        \<and> buffer (messageData (events ! a)) = b0 # b1 # b2 # bs \<longrightarrow>
        (let u = (unat b0 * 256 + unat b1) * 256 + unat b2;
             factor = 60 / (60000000 / real u * real_of_int td);
             events' = events[a := (events ! a)
                         \<lparr>messageData := (fromBuffer (b0 # b1 # b2 # bs))\<lparr>currentIndex := 3\<rparr>\<rparr>]
         in factor = real u / (1000000 * real_of_int td)
            \<and> walk td (a # b # rest) (events, s) =
                walk td (b # rest)
                  (events',
                   s\<lparr>oneTickToSeconds := factor,
                     elapsedTime := elapsedTime s
                       + factor * real_of_int (ticks (events ! b) - ticks (events ! a))\<rparr>)
            \<and> walk td [a] (events, s) = (events', s\<lparr>oneTickToSeconds := factor\<rparr>)))
   \<and> (messageStatusByte e \<noteq> 0x51 \<longrightarrow>
        oneTickToSeconds (snd (processEvent td e s)) = oneTickToSeconds s)
   \<and> (\<forall>n < length (store s).
        start (store (snd (walk td refs (events, s))) ! n) = start (store s ! n))"
proof -
  let ?u = "(unat b0 * 256 + unat b1) * 256 + unat b2"
  let ?factor = "60 / (60000000 / real ?u * real_of_int td)"
  let ?events = "events[a := (events ! a)
                   \<lparr>messageData := (fromBuffer (b0 # b1 # b2 # bs))\<lparr>currentIndex := 3\<rparr>\<rparr>]"
  have init: "oneTickToSeconds (init td) = 60 / (120 * real_of_int td)"
    by (simp add: init_def)
  have tempo:
    "walk td (a # b # rest) (events, s) =
       walk td (b # rest)
         (?events,
          s\<lparr>oneTickToSeconds := ?factor,
            elapsedTime := elapsedTime s
              + ?factor * real_of_int (ticks (events ! b) - ticks (events ! a))\<rparr>)"
    "walk td [a] (events, s) = (?events, s\<lparr>oneTickToSeconds := ?factor\<rparr>)"
    if "messageStatusByte (events ! a) = 0x51"
      "buffer (messageData (events ! a)) = b0 # b1 # b2 # bs"
    using walk_tempo_step [OF that(1), of td b rest s] walk_tempo_last [OF that(1), of td s]
      getTempo_value [OF that(2)]
    by simp_all
  from init tempo factor_in_seconds [of td ?u]
    processEvent_factor [of e td s] walk_start [of _ s td refs events]
  show ?thesis unfolding Let_def by blast
qed

lemma getTempo_idem: "snd (getTempo (snd (getTempo e))) = snd (getTempo e)"
  by (simp add: getTempo_def readBytesAsUintBigEndian_def fromBuffer_def Let_def)

lemma walk_Cons_events:
  "\<exists>s'. walk td (a # refs) (events, s) =
         walk td refs (events[a := fst (processEvent td (events ! a) s)], s')"
proof (cases refs)
  case Nil
  then show ?thesis by (simp split: prod.splits)
next
  case (Cons b rest)
  obtain e' s' where "processEvent td (events ! a) s = (e', s')"
    by (cases "processEvent td (events ! a) s")
  then show ?thesis unfolding Cons by (simp add: Let_def) (rule exI, rule refl)
qed

lemma touched_idem [simp]: "touched (touched e) = touched e"
  by (simp add: touched_def getTempo_idem)

lemma walk_events:
  "set refs \<subseteq> {..<length events} \<Longrightarrow>
   fst (walk td refs (events, s)) =
     map (\<lambda>i. if i \<in> set refs then touched (events ! i) else events ! i) [0..<length events]"
proof (induction refs arbitrary: events s)
  case Nil
  then show ?case by (simp add: map_nth)
next
  case (Cons a refs)
  let ?ev = "events[a := touched (events ! a)]"
  obtain s' where w: "walk td (a # refs) (events, s) = walk td refs (?ev, s')"
    using walk_Cons_events [of td a refs events s] by (auto simp: processEvent_event touched_def)
  from Cons.prems have "set refs \<subseteq> {..<length ?ev}" by simp
  from Cons.IH [OF this, of s']
  have "fst (walk td refs (?ev, s')) =
        map (\<lambda>i. if i \<in> set refs then touched (?ev ! i) else ?ev ! i) [0..<length events]"
    by simp
  also have "\<dots> = map (\<lambda>i. if i \<in> set (a # refs) then touched (events ! i) else events ! i)
                      [0..<length events]"
  proof (rule map_cong)
    fix i assume "i \<in> set [0..<length events]"
    then have i: "i < length events" by simp
    from Cons.prems have a: "a < length events" by simp
    show "(if i \<in> set refs then touched (?ev ! i) else ?ev ! i) =
          (if i \<in> set (a # refs) then touched (events ! i) else events ! i)"
      using i a by (cases "i = a") simp_all
  qed simp
  finally show ?case by (simp only: w)
qed

lemma set_sortedRefs: "set (sortedRefs events) = {..<length events}"
  by (auto simp: sortedRefs_def)

lemma run_events: "fst (run midi) = map touched (concat (tracks midi))"
proof -
  let ?ev = "concat (tracks midi)"
  have "fst (run midi) = fst (walk (timeDivision midi) (sortedRefs ?ev) (?ev, init (timeDivision midi)))"
    by (simp add: run_def Let_def split: prod.splits)
  also have "\<dots> = map (\<lambda>i. if i \<in> set (sortedRefs ?ev) then touched (?ev ! i) else ?ev ! i)
                      [0..<length ?ev]"
    by (rule walk_events) (simp add: set_sortedRefs)
  also have "\<dots> = map (\<lambda>i. touched (?ev ! i)) [0..<length ?ev]"
    by (rule map_cong) (simp_all add: set_sortedRefs)
  also have "\<dots> = map touched (map ((!) ?ev) [0..<length ?ev])"
    by (simp add: comp_def)
  also have "\<dots> = map touched ?ev"
    by (simp only: map_nth)
  finally show ?thesis .
qed

lemma unflat_map_concat: "unflat (map length xss) (map f (concat xss)) = map (map f) xss"
  by (induction xss) simp_all

subsection \<open>What the extraction does to the document\<close>

text \<open>
  C9, as amended. The extraction leaves the document as it was but for the tempo events
  (status byte \<open>0x51\<close>): \<^verbatim>\<open>getTempo\<close> replaces the \<^verbatim>\<open>messageData\<close> of each by a fresh view of the
  whole underlying buffer, whose cursor the three-byte read leaves at \<open>3\<close>. The tracks, the
  order and number of their events, every \<open>ticks\<close> and status byte, every byte buffer, the
  time division and every event with another status byte are unchanged.
\<close>

theorem extraction_rewrites_tempo_payload_only:
  "documentAfter midi =
     midi\<lparr>tracks :=
       map (map (\<lambda>e. if messageStatusByte e = 0x51
                     then e\<lparr>messageData := (fromBuffer (buffer (messageData e)))\<lparr>currentIndex := 3\<rparr>\<rparr>
                     else e))
           (tracks midi)\<rparr>"
proof -
  have "touched = (\<lambda>e. if messageStatusByte e = 0x51
                     then e\<lparr>messageData := (fromBuffer (buffer (messageData e)))\<lparr>currentIndex := 3\<rparr>\<rparr>
                     else e)"
    by (rule ext) (simp add: touched_def getTempo_def readBytesAsUintBigEndian_def fromBuffer_def Let_def)
  then show ?thesis
    by (simp add: documentAfter_def run_events unflat_map_concat)
qed

lemma init_eval:
  "init td = \<lparr>store = [], noteTimes = [[], [], [], [], [], [], [], [], [], [], [], [], [], [], [], []],
      unfinishedNotes = [[], [], [], [], [], [], [], [], [], [], [], [], [], [], [], []],
      elapsedTime = 0, oneTickToSeconds = 60 / (120 * real_of_int td), unfinished = 0\<rparr>"
  by (simp add: init_def numeral_eq_Suc)

lemma readBytes3_eval:
  "readBytesAsUintBigEndian arr 3 =
     (let b = (\<lambda>i. case byteAt arr (currentIndex arr + i) of Some b \<Rightarrow> unat b | None \<Rightarrow> 0)
      in ((b 0 * 256 + b 1) * 256 + b 2, arr\<lparr>currentIndex := currentIndex arr + 3\<rparr>))"
  by (simp add: readBytesAsUintBigEndian_def upt_rec Let_def)

lemmas eval_defs = processEvent_def noteOff_def noteOn_def byteAt_def fromBuffer_def
  closedLength_def minNoteTime_def splice1_def getTempo_def readBytes3_eval init_eval Let_def

text \<open>
  Time division 480; a note is struck at tick 0 under the default tempo, a tempo event of
  1000000 microseconds per quarter comes at tick 480, the note is released at tick 960.
  The loop reaches the tempo event with the factor \<open>1/960\<close> and the clock at \<open>1/2\<close>, and goes
  on with the factor \<open>1/480\<close> and the clock at \<open>3/2\<close>: the note starts at \<open>0\<close> and lasts \<open>3/2\<close>.
  And the scenario of the spec: a tempo of 500000 microseconds per quarter at tick 0, a
  note-on at tick 0 and its note-off at tick 480; the note lasts half a second.
\<close>

theorem tempo_change_applies_from_its_own_tick_witness:
  "messageStatusByte (tempo_change ! 1) = 0x51
   \<and> buffer (messageData (tempo_change ! 1)) = [0x0F, 0x42, 0x40]
   \<and> walk 480 [0, 1, 2] (tempo_change, init 480) = walk 480 [1, 2] (tempo_change, before_tempo_change)
   \<and> oneTickToSeconds before_tempo_change = 1 / 960
   \<and> start (store before_tempo_change ! 0) = 0
   \<and> walk 480 [1, 2] (tempo_change, before_tempo_change) =
       walk 480 [2]
         (tempo_change[1 := (tempo_change ! 1)
             \<lparr>messageData := (fromBuffer [0x0F, 0x42, 0x40])\<lparr>currentIndex := 3\<rparr>\<rparr>],
          before_tempo_change\<lparr>oneTickToSeconds := 1 / 480, elapsedTime := 3 / 2\<rparr>)
   \<and> getNoteTimes \<lparr>timeDivision = 480, duration = 2, tracks = [tempo_change]\<rparr> ! 0
       = [\<lparr>midiNote = Some 60, start = 0, length_sec = 3 / 2, velocity = Some (100 / 127)\<rparr>]
   \<and> getNoteTimes \<lparr>timeDivision = 480, duration = 1, tracks = [scenario]\<rparr> ! 0
       = [\<lparr>midiNote = Some 60, start = 0, length_sec = 1 / 2, velocity = Some (100 / 127)\<rparr>]"
proof -
  have tempo: "messageStatusByte (tempo_change ! 1) = 0x51"
    "buffer (messageData (tempo_change ! 1)) = [0x0F, 0x42, 0x40]"
    by (simp_all add: tempo_change_def fromBuffer_def)
  have reach: "walk 480 [0, 1, 2] (tempo_change, init 480) = walk 480 [1, 2] (tempo_change, before_tempo_change)"
    by (simp add: before_tempo_change_def tempo_change_def eval_defs)
  have st: "oneTickToSeconds before_tempo_change = 1 / 960" "elapsedTime before_tempo_change = 1 / 2"
    "start (store before_tempo_change ! 0) = 0"
    by (simp_all add: before_tempo_change_def tempo_change_def eval_defs)
  have delta: "real_of_int (ticks (tempo_change ! 2) - ticks (tempo_change ! Suc 0)) = 480"
    by (simp add: tempo_change_def)
  have result: "getNoteTimes \<lparr>timeDivision = 480, duration = 2, tracks = [tempo_change]\<rparr> ! 0
       = [\<lparr>midiNote = Some 60, start = 0, length_sec = 3 / 2, velocity = Some (100 / 127)\<rparr>]"
    by (simp add: getNoteTimes_def run_def sortedRefs_def finishUnfinished_def tempo_change_def eval_defs)
  have result2: "getNoteTimes \<lparr>timeDivision = 480, duration = 1, tracks = [scenario]\<rparr> ! 0
       = [\<lparr>midiNote = Some 60, start = 0, length_sec = 1 / 2, velocity = Some (100 / 127)\<rparr>]"
    by (simp add: getNoteTimes_def run_def sortedRefs_def finishUnfinished_def scenario_def eval_defs)
  from tempo_change_applies_from_its_own_tick
      [where td = 480 and events = tempo_change and a = 1 and b = 2 and rest = "[]"
         and s = before_tempo_change and ?b0.0 = "0x0F" and ?b1.0 = "0x42" and ?b2.0 = "0x40"
         and bs = "[]"]
    tempo
  have "walk 480 [1, 2] (tempo_change, before_tempo_change) =
       walk 480 [2]
         (tempo_change[1 := (tempo_change ! 1)
             \<lparr>messageData := (fromBuffer [0x0F, 0x42, 0x40])\<lparr>currentIndex := 3\<rparr>\<rparr>],
          before_tempo_change\<lparr>oneTickToSeconds := 1 / 480, elapsedTime := 3 / 2\<rparr>)"
    by (simp add: Let_def delta st del: walk.simps of_int_diff)
  with tempo reach st result result2 show ?thesis by simp
qed

text \<open>
  C9 as stated (no field of any event changes) fails at a document of one tempo event whose
  payload has its cursor at \<open>0\<close>: after the extraction the cursor is at \<open>3\<close>.
\<close>

theorem extraction_mutates_tempo_event:
  "documentAfter \<lparr>timeDivision = 480, duration = 1,
      tracks = [[\<lparr>ticks = 0, messageStatusByte = 0x51, messageData = fromBuffer [0x07, 0xA1, 0x20]\<rparr>]]\<rparr>
   \<noteq> \<lparr>timeDivision = 480, duration = 1,
      tracks = [[\<lparr>ticks = 0, messageStatusByte = 0x51, messageData = fromBuffer [0x07, 0xA1, 0x20]\<rparr>]]\<rparr>"
  by (simp add: documentAfter_def run_def sortedRefs_def finishUnfinished_def eval_defs)

lemma set_splice1: "set (splice1 i xs) \<subseteq> set xs"
  unfolding splice1_def by (auto dest: in_set_takeD in_set_dropD)

lemma distinct_map_splice1: "distinct (map f xs) \<Longrightarrow> distinct (map f (splice1 i xs))"
proof -
  assume d: "distinct (map f xs)"
  have "map f xs = map f (take i xs) @ map f (drop i xs)"
    by (simp flip: map_append)
  with d have 1: "distinct (map f (take i xs))" "distinct (map f (drop i xs))"
    "set (map f (take i xs)) \<inter> set (map f (drop i xs)) = {}"
    by (metis distinct_append)+
  have "set (drop (Suc i) xs) \<subseteq> set (drop i xs)"
    by (metis drop_Suc set_drop_subset tl_drop drop_drop plus_1_eq_Suc)
  moreover have "distinct (map f (drop (Suc i) xs))"
    using d by (metis distinct_drop drop_map)
  ultimately show ?thesis
    using 1 unfolding splice1_def by auto
qed

lemma splice1_removes:
  assumes "distinct (map f xs)" "i < length xs"
  shows "f (xs ! i) \<notin> f ` set (splice1 i xs)"
proof -
  have xs: "xs = take i xs @ xs ! i # drop (Suc i) xs"
    using assms(2) by (simp add: id_take_nth_drop)
  have "distinct (map f (take i xs @ xs ! i # drop (Suc i) xs))"
    using assms(1) xs by simp
  then show ?thesis unfolding splice1_def by auto
qed

lemma openOk_update:
  "openOk st opn \<Longrightarrow> openOk (st[a := (st ! a)\<lparr>length_sec := l\<rparr>]) opn"
  unfolding openOk_def
  by (simp add: nth_update_same_field [where f = midiNote and g = "\<lambda>n. n\<lparr>length_sec := l\<rparr>"])

lemma openOk_splice1: "openOk st opn \<Longrightarrow> openOk st (splice1 i opn)"
  unfolding openOk_def using set_splice1 [of i opn] by (auto intro: distinct_map_splice1)

lemma openOk_append_store: "openOk st opn \<Longrightarrow> openOk (st @ [n]) opn"
proof -
  assume a: "openOk st opn"
  then have lt: "\<forall>a\<in>set opn. a < length st" by (simp add: openOk_def)
  have m: "map (\<lambda>a. midiNote ((st @ [n]) ! a)) opn = map (\<lambda>a. midiNote (st ! a)) opn"
    by (rule map_cong) (use lt in \<open>simp_all add: nth_append\<close>)
  from a lt show ?thesis unfolding openOk_def m by auto
qed

lemma openOk_list_update:
  assumes "\<forall>opn\<in>set xs. openOk st opn" and "c < length xs \<Longrightarrow> openOk st y"
  shows "\<forall>opn\<in>set (xs[c := y]). openOk st opn"
proof (cases "c < length xs")
  case True
  with assms show ?thesis
    using set_update_subset_insert [of xs c y] by auto
next
  case False
  with assms(1) show ?thesis by (simp add: list_update_beyond)
qed

lemma validOpen_noteOff: "validOpen s \<Longrightarrow> validOpen (noteOff p c s)"
proof -
  assume v: "validOpen s"
  show ?thesis
  proof (cases "findIndex (\<lambda>n. midiNote (store s ! n) = p) (unfinishedNotes s ! c)")
    case None
    with v show ?thesis by (simp add: validOpen_def noteOff_def)
  next
    case (Some i)
    let ?opn = "unfinishedNotes s ! c"
    let ?a = "?opn ! i"
    let ?st = "(store s)[?a := (store s ! ?a)\<lparr>length_sec :=
                 closedLength c (elapsedTime s - start (store s ! ?a))\<rparr>]"
    from v have all: "\<forall>opn\<in>set (unfinishedNotes s). openOk ?st opn"
      by (auto simp: validOpen_def intro: openOk_update)
    have "c < length (unfinishedNotes s) \<Longrightarrow> openOk ?st (splice1 i ?opn)"
      using all by (auto intro: openOk_splice1)
    from openOk_list_update [OF all this]
    show ?thesis using v Some by (simp add: validOpen_def noteOff_def Let_def)
  qed
qed

lemma noteOff_no_match_left:
  assumes "validOpen s" "c < 16"
  shows "p \<notin> (\<lambda>a. midiNote (store s ! a)) ` set (unfinishedNotes (noteOff p c s) ! c)"
proof (cases "findIndex (\<lambda>n. midiNote (store s ! n) = p) (unfinishedNotes s ! c)")
  case None
  then have "unfinishedNotes (noteOff p c s) = unfinishedNotes s"
    by (simp add: noteOff_def)
  moreover from None have "\<forall>x\<in>set (unfinishedNotes s ! c). midiNote (store s ! x) \<noteq> p"
    by (simp add: findIndex_None)
  ultimately show ?thesis by auto
next
  case (Some i)
  let ?opn = "unfinishedNotes s ! c"
  from assms have "openOk (store s) ?opn" by (simp add: validOpen_def)
  then have d: "distinct (map (\<lambda>a. midiNote (store s ! a)) ?opn)" by (simp add: openOk_def)
  from findIndex_Some [OF Some] have i: "i < length ?opn" "midiNote (store s ! (?opn ! i)) = p"
    by simp_all
  from splice1_removes [OF d i(1)] i(2) assms Some
  show ?thesis by (simp add: noteOff_def Let_def validOpen_def)
qed

lemma openOk_push:
  assumes "openOk st opn" and "midiNote n \<notin> (\<lambda>a. midiNote (st ! a)) ` set opn"
  shows "openOk (st @ [n]) (opn @ [length st])"
proof -
  from assms(1) have lt: "\<forall>a\<in>set opn. a < length st" by (simp add: openOk_def)
  from openOk_append_store [OF assms(1)]
  have d: "distinct (map (\<lambda>a. midiNote ((st @ [n]) ! a)) opn)" by (simp add: openOk_def)
  have "midiNote n \<notin> (\<lambda>a. midiNote ((st @ [n]) ! a)) ` set opn"
  proof
    assume "midiNote n \<in> (\<lambda>a. midiNote ((st @ [n]) ! a)) ` set opn"
    then obtain a where a: "a \<in> set opn" "midiNote n = midiNote ((st @ [n]) ! a)" by auto
    with lt have "midiNote n = midiNote (st ! a)" by (simp add: nth_append)
    with a(1) assms(2) show False by auto
  qed
  with d lt show ?thesis
    unfolding openOk_def by (auto simp: less_Suc_eq)
qed

lemma validOpen_noteOn:
  assumes "validOpen s" "c < 16"
    and "byteAt (messageData e) 0 \<notin> (\<lambda>a. midiNote (store s ! a)) ` set (unfinishedNotes s ! c)"
  shows "validOpen (noteOn e c s)"
proof -
  let ?n = "\<lparr>midiNote = byteAt (messageData e) 0, start = elapsedTime s, length_sec = - 1,
             velocity = map_option (\<lambda>b. real (unat b) / 127) (byteAt (messageData e) 1)\<rparr>"
  let ?st = "store s @ [?n]"
  let ?opn = "unfinishedNotes s ! c"
  from assms(1) have all: "\<forall>opn\<in>set (unfinishedNotes s). openOk ?st opn"
    by (auto simp: validOpen_def intro: openOk_append_store)
  from assms have ok: "openOk (store s) ?opn" by (simp add: validOpen_def)
  have "openOk ?st (?opn @ [length (store s)])"
    by (rule openOk_push [OF ok]) (use assms(3) in simp)
  from openOk_list_update [OF all this]
  show ?thesis using assms(1) by (simp add: validOpen_def noteOn_def Let_def)
qed

lemma validOpen_processEvent: "validOpen s \<Longrightarrow> validOpen (snd (processEvent td e s))"
proof -
  assume v: "validOpen s"
  let ?c = "unat (messageStatusByte e AND 0x0F)"
  let ?p = "byteAt (messageData e) 0"
  have c: "?c < 16" by (rule channel_lt_16)
  have off: "validOpen (noteOff ?p ?c s)" using v by (rule validOpen_noteOff)
  have "?p \<notin> (\<lambda>a. midiNote (store (noteOff ?p ?c s) ! a)) ` set (unfinishedNotes (noteOff ?p ?c s) ! ?c)"
    using noteOff_no_match_left [OF v c, of ?p] by simp
  from validOpen_noteOn [OF off c this] off v
  show ?thesis
    by (simp add: processEvent_def Let_def validOpen_def split: prod.splits)
qed


lemma validOpen_walk: "validOpen s \<Longrightarrow> validOpen (snd (walk td refs (events, s)))"
  by (rule walk_preserves [where P = validOpen])
     (simp_all add: validOpen_processEvent, simp add: validOpen_def)






















subsection \<open>Which interval a note-off resolves\<close>





subsection \<open>Bounds on the intervals\<close>




subsection \<open>The notes that no note-off closes\<close>

text \<open>
  C2. The claim: when the pass ends, every interval that a note-on opened and no note-off
  closed gets its length from the final clock, so that no returned interval keeps the
  provisional length \<open>-1\<close>. The code at a document of one track holding a single note-on
  (status \<open>0x90\<close>, pitch 60, velocity 100, tick 0): \<^verbatim>\<open>noteOff\<close> runs first ("stop previous")
  and decrements \<open>unfinished\<close> to \<open>-1\<close>, the push brings it back to \<open>0\<close>, the guard
  \<^verbatim>\<open>unfinished > 0\<close> of the closing pass is false, and the interval is returned with
  length \<open>-1\<close>. (\<open>walk_unfinished\<close> above: the counter never exceeds \<open>0\<close>, so the closing
  pass never runs, on any document.)
\<close>

theorem unclosed_note_keeps_provisional_length:
  "getNoteTimes \<lparr>timeDivision = 480, duration = 1,
       tracks = [[\<lparr>ticks = 0, messageStatusByte = 0x90, messageData = fromBuffer [60, 100]\<rparr>]]\<rparr>
   = [\<lparr>midiNote = Some 60, start = 0, length_sec = - 1, velocity = Some (100 / 127)\<rparr>]
     # replicate 15 []"
  by code_simp

section \<open>Properties of the controller and the widget\<close>

subsection \<open>Evaluation\<close>

text \<open>The three functions that call each other are unfolded on demand.\<close>

declare handleStop.simps [simp del] p_start.simps [simp del] stop.simps [simp del]

lemmas widget_defs = set_currentTime_def markStopped_def update_def dispatchEvent_def after_def
  isPlaying_def setCurrentTime_def play_def pause_def getCurrentTime_def Let_def
lemmas example_defs = newElement_def loadedPlayer_def loadedElement_def onePage_def twoPage_def

lemma handleStop_False: "handleStop w False g = Returns (markStopped w False g)"
  by (simp add: handleStop.simps)

lemma p_start_not_idle: "\<not> idle g w \<Longrightarrow> p_start w looped g = g"
  by (simp add: p_start.simps idle_def split: option.splits bool.splits)

subsection \<open>Setting the current time\<close>

text \<open>
  C8, as amended. The controller's setter (\<^verbatim>\<open>SpessaSynthPlayer.currentTime\<close>), once a document
  is loaded (the sequencer exists), moves the backend to the given position and leaves
  playing or paused as it was. The widget's setter always moves the seek bar and the time
  label, and passes the position on to the controller only while the backend is playing:
  with the backend paused its position stays. Neither changes the play/pause state, the
  widget's \<open>playing\<close> flag or the events dispatched.
\<close>

theorem currentTime_setter_seeks_only_while_playing:
  "(seq p = Some q \<longrightarrow>
      Option.bind (setCurrentTime t p) getCurrentTime = Some t
      \<and> Option.bind (setCurrentTime t p) isPlaying = isPlaying p)
   \<and> (player (elements g w) = Some p \<and> seq p = Some q \<longrightarrow>
        (let g' = after (set_currentTime w t g)
         in set_currentTime w t g = Returns g'
            \<and> seekBarValue (elements g' w) = t
            \<and> currentTimeLabel (elements g' w) = t
            \<and> Option.bind (player (elements g' w)) getCurrentTime
                = Some (if paused q then position q else t)
            \<and> Option.bind (player (elements g' w)) isPlaying = Some (\<not> paused q)
            \<and> playing (elements g' w) = playing (elements g w)
            \<and> dispatched g' = dispatched g))"
  by (simp add: widget_defs)

text \<open>A loaded, looping widget that plays at position \<open>3\<close>; the time is set to \<open>10\<close>.\<close>

theorem currentTime_setter_seeks_only_while_playing_witness:
  "player (elements (onePage (loadedElement True True False 3) (Some 0)) 0) = Some (loadedPlayer False 3)
   \<and> seq (loadedPlayer False 3) = Some \<lparr>paused = False, position = 3, songList = []\<rparr>
   \<and> Option.bind (player (elements (after (set_currentTime 0 10
          (onePage (loadedElement True True False 3) (Some 0)))) 0)) getCurrentTime = Some 10
   \<and> Option.bind (player (elements (after (set_currentTime 0 10
          (onePage (loadedElement True True False 3) (Some 0)))) 0)) isPlaying = Some True"
proof -
  have h: "player (elements (onePage (loadedElement True True False 3) (Some 0)) 0) = Some (loadedPlayer False 3)"
     "seq (loadedPlayer False 3) = Some \<lparr>paused = False, position = 3, songList = []\<rparr>"
    by (simp_all add: example_defs)
  from currentTime_setter_seeks_only_while_playing
    [where p = "loadedPlayer False 3" and q = "\<lparr>paused = False, position = 3, songList = []\<rparr>"
       and g = "onePage (loadedElement True True False 3) (Some 0)" and w = 0 and t = 10] h
  show ?thesis by (simp add: Let_def)
qed

text \<open>
  C8 as stated fails in the paused state: a loaded widget paused at position \<open>3\<close>, the time
  set to \<open>10\<close>; the backend stays at \<open>3\<close>.
\<close>

theorem paused_setter_leaves_backend_position:
  "Option.bind (player (elements (after (set_currentTime 0 10
       (onePage (loadedElement True False True 3) None))) 0)) getCurrentTime = Some 3"
  by (simp add: widget_defs example_defs)

lemmas transport_simps = handleStop.simps p_start.simps stop.simps

subsection \<open>Dragging the seek bar\<close>

text \<open>
  C5. The claim: while the user drags, the \<open>seeking\<close> flag keeps the backend's callbacks
  from moving the displayed position; when the drag ends and the widget played before it,
  the released position is given to the backend and playback resumes. The code at a
  loaded, looping widget that plays at position \<open>3\<close>: the user drags to \<open>10\<close> (\<^verbatim>\<open>input\<close>), a note
  callback arrives, the user releases at \<open>12\<close> (\<^verbatim>\<open>change\<close>). The first half holds: the
  callback dispatches its \<^verbatim>\<open>note\<close> event and leaves the seek bar at \<open>10\<close>. The second half
  fails: the \<^verbatim>\<open>input\<close> listener has paused the backend, so at \<^verbatim>\<open>change\<close> the guard
  \<^verbatim>\<open>this.player.isPlaying\<close> is false, the position is not passed on and \<^verbatim>\<open>play()\<close> is not
  called: the backend stays paused at \<open>3\<close>.
\<close>

theorem released_seek_is_not_committed:
  "(let g0 = onePage (loadedElement True True False 3) (Some 0);
        g1 = after (onSeekBarInput 0 (moveSeekBar 0 10 g0));
        g2 = after (noteCallback 0 60 g1);
        g3 = after (onSeekBarChange 0 (moveSeekBar 0 12 g2))
    in seeking (elements g1 0)
       \<and> Option.bind (player (elements g1 0)) isPlaying = Some False
       \<and> seekBarValue (elements g2 0) = 10
       \<and> dispatched g2 = [(0, Note 60)]
       \<and> \<not> seeking (elements g3 0)
       \<and> seekBarValue (elements g3 0) = 12
       \<and> Option.bind (player (elements g3 0)) getCurrentTime = Some 3
       \<and> Option.bind (player (elements g3 0)) isPlaying = Some False)"
  by (simp add: onSeekBarInput_def onSeekBarChange_def noteCallback_def moveSeekBar_def
        widget_defs example_defs)

lemma lv_update:
  assumes "\<And>el. soundfontBin (f el) = soundfontBin el"
    and "\<And>el. map_option soundfontBuffer (player (f el)) = map_option soundfontBuffer (player el)"
  shows "lv (update w f g) = lv g"
  by (auto simp: lv_def update_def assms)

lemma lv_dispatchEvent [simp]: "lv (dispatchEvent w ev g) = lv g"
  by (simp add: lv_def dispatchEvent_def)

lemma lv_playingPlayer [simp]: "lv (g\<lparr>playingPlayer := x\<rparr>) = lv g"
  by (simp add: lv_def)

lemma lv_set_currentTime [simp]: "lv (after (set_currentTime w v g)) = lv g"
  by (auto simp: lv_def set_currentTime_def update_def after_def isPlaying_def setCurrentTime_def Let_def
      split: option.splits bool.splits)

lemma lv_set_currentTime_Returns: "set_currentTime w v g = Returns g1 \<Longrightarrow> lv g1 = lv g"
  using lv_set_currentTime [of w v g] by (simp add: after_def)

lemma lv_set_currentTime_Throws: "set_currentTime w v g = Throws g1 \<Longrightarrow> lv g1 = lv g"
  using lv_set_currentTime [of w v g] by (simp add: after_def)

lemma lv_markStopped [simp]: "lv (markStopped w f g) = lv g"
  by (simp add: markStopped_def Let_def lv_update)

lemma lv_handleStop_False [simp]: "lv (after (handleStop w False g)) = lv g"
  by (simp add: handleStop_False after_def)

lemma lv_stop [simp]: "lv (after (stop w g)) = lv g"
proof (cases "player (elements g w)")
  case None
  then show ?thesis by (simp add: stop.simps)
next
  case (Some p)
  have "lv (update w (\<lambda>el. el\<lparr>player := pause p\<rparr>) g) = lv g" if "isPlaying p = Some True"
    using that Some
    by (auto simp: lv_def update_def pause_def isPlaying_def split: option.splits)
  with Some show ?thesis
    by (auto simp: stop.simps handleStop_False after_def split: option.splits bool.splits)
qed

lemma play_soundfontBuffer:
  "Option.bind x play = Some p' \<Longrightarrow> map_option soundfontBuffer x = Some (soundfontBuffer p')"
  by (cases x) (auto simp: play_def split: option.splits)

lemma lv_transport:
  "lv (after (handleStop w finished g)) = lv g"
  "lv (p_start w' looped g') = lv g'"
  "lv (after (stop w'' g'')) = lv g''"
proof (induction w finished g and w' looped g' and w'' g'' rule: handleStop_p_start_stop.induct)
  case (1 w finished g)
  show ?case
  proof (cases "finished \<and> loop (elements g w)")
    case True
    show ?thesis
    proof (cases "set_currentTime w 0 g")
      case (Returns g1)
      with True 1 [of g1] lv_set_currentTime_Returns [OF Returns] show ?thesis
        by (simp add: handleStop.simps after_def)
    next
      case (Throws g1)
      with True lv_set_currentTime_Throws [OF Throws] show ?thesis
        by (simp add: handleStop.simps after_def)
    qed
  next
    case False
    then show ?thesis
      using lv_set_currentTime [of w "seekBarMax (elements g w)" g]
      by (auto simp: handleStop.simps after_def split: outcome.splits)
  qed
next
  case (2 w looped g)
  show ?case
  proof (cases "idle g w")
    case False
    then show ?thesis by (simp add: p_start_not_idle)
  next
    case True
    then obtain p where p: "player (elements g w) = Some p" "isPlaying p = Some False"
      by (auto simp: idle_def split: option.splits)
    define r where "r = (case playingPlayer g of None \<Rightarrow> Returns g
        | Some pp \<Rightarrow> if playing (elements g pp) \<and> \<not> (pp = w \<and> looped) then stop pp g else Returns g)"
    have lr: "lv (after r) = lv g"
      using lv_stop by (simp add: r_def after_def split: option.splits)
    show ?thesis
    proof (cases r)
      case (Throws g')
      with p have "p_start w looped g = g'" by (simp add: p_start.simps r_def)
      with lr Throws show ?thesis by (simp add: after_def)
    next
      case (Returns g1)
      with lr have l1: "lv g1 = lv g" by (simp add: after_def)
      define g2 where "g2 = (update w (\<lambda>el. el\<lparr>playing := True\<rparr>) g1)\<lparr>playingPlayer := Some w\<rparr>"
      have l2: "lv g2 = lv g" by (simp add: g2_def lv_update l1)
      show ?thesis
      proof (cases "set_currentTime w 0 g2")
        case (Throws g')
        with p Returns have "p_start w looped g = g'" by (simp add: p_start.simps r_def g2_def)
        with lv_set_currentTime_Throws [OF Throws] l2 show ?thesis by simp
      next
        case g3: (Returns g3)
        define g4 where "g4 = update w (\<lambda>el. el\<lparr>classList :=
                                      insert ''playing'' (classList el - {''stopped''})\<rparr>) g3"
        have l4: "lv g4 = lv g"
          using lv_set_currentTime_Returns [OF g3] l2 by (simp add: g4_def lv_update)
        show ?thesis
        proof (cases "Option.bind (player (elements g4 w)) play")
          case None
          with p Returns g3 have "p_start w looped g = after (handleStop w False g4)"
            by (simp add: p_start.simps r_def g2_def g4_def)
          with l4 show ?thesis by simp
        next
          case (Some p5)
          define g6 where "g6 = dispatchEvent w (if looped then Loop else Start)
                                            (update w (\<lambda>el. el\<lparr>player := Some p5\<rparr>) g4)"
          have l6: "lv g6 = lv g4"
            using play_soundfontBuffer [OF Some]
            by (auto simp: g6_def lv_def update_def dispatchEvent_def)
          have ih: "lv (after (handleStop w True g6)) = lv g6"
            unfolding g6_def
            by (rule "2.IH"(3) [OF p(1) p(2) _ Returns [unfolded r_def] g3 [unfolded g2_def] g4_def Some])
               simp
          have res: "p_start w looped g =
              (case handleStop w True g6 of Returns g7 \<Rightarrow> g7 | Throws g7 \<Rightarrow> after (handleStop w False g7))"
            using p Returns g3 Some by (simp add: p_start.simps r_def g2_def g4_def g6_def)
          show ?thesis
          proof (cases "handleStop w True g6")
            case r7: (Returns g7)
            with ih l6 l4 res show ?thesis by (simp add: after_def)
          next
            case t7: (Throws g7)
            with ih l6 l4 have "lv g7 = lv g" by (simp add: after_def)
            with lv_handleStop_False [of w g7] res t7 show ?thesis by simp
          qed
        qed
      qed
    qed
  qed
next
  case (3 w g)
  show ?case by simp
qed

lemma cached_lv: "lv g' = lv g \<Longrightarrow> cached b n w g' = cached b n w g"
proof -
  assume "lv g' = lv g"
  then have "soundfontBin (elements g' w) = soundfontBin (elements g w)"
    "map_option soundfontBuffer (player (elements g' w)) = map_option soundfontBuffer (player (elements g w))"
    "pending g' = pending g" "requests g' = requests g"
    by (auto simp: lv_def dest: fun_cong [where x = w])
  then show ?thesis
    by (cases "player (elements g' w)"; cases "player (elements g w)")
       (auto simp: cached_def fetchingSoundFont_def soundFontRequests_def)
qed

lemma filled_lv: "lv g' = lv g \<Longrightarrow> filled n w g' = filled n w g"
proof -
  assume "lv g' = lv g"
  then have "soundfontBin (elements g' w) = soundfontBin (elements g w)"
    "requests g' = requests g"
    by (auto simp: lv_def dest: fun_cong [where x = w])
  then show ?thesis
    by (simp add: filled_def soundFontRequests_def)
qed

lemma lv_after_set_currentTime:
  "lv (case set_currentTime w v g of Returns g' \<Rightarrow> g' | Throws g' \<Rightarrow> g') = lv g"
  using lv_set_currentTime [of w v g] by (simp add: after_def)

lemma update_fields [simp]:
  "elements (update w f g) w' = (if w' = w then f (elements g w) else elements g w')"
  "pending (update w f g) = pending g"
  "requests (update w f g) = requests g"
  "audioContext (update w f g) = audioContext g"
  "nextObjectId (update w f g) = nextObjectId g"
  "playingPlayer (update w f g) = playingPlayer g"
  "dispatched (update w f g) = dispatched g"
  by (simp_all add: update_def)

lemma fetchingSoundFont_pending:
  "fetchingSoundFont g w \<longleftrightarrow> (\<exists>d. AwaitSoundFont w d \<in> set (pending g))"
proof -
  have "(case t of AwaitSoundFont w' _ \<Rightarrow> w' = w | _ \<Rightarrow> False) \<longleftrightarrow> (\<exists>d. t = AwaitSoundFont w d)"
    for t by (cases t) auto
  then show ?thesis by (auto simp: fetchingSoundFont_def list_ex_iff)
qed

lemma soundFontRequests_append:
  "soundFontRequests (g\<lparr>requests := requests g @ [(w', r)]\<rparr>) w =
     soundFontRequests g w
       @ (case r of FetchSoundFont url \<Rightarrow> if w' = w then [url] else [] | FetchSrc _ \<Rightarrow> [])"
  by (simp add: soundFontRequests_def)

lemma cached_update:
  assumes "\<And>el. soundfontBin (f el) = soundfontBin el"
    and "\<And>el. map_option soundfontBuffer (player (f el)) = map_option soundfontBuffer (player el)"
  shows "cached b n w (update w' f g) = cached b n w g"
  by (rule cached_lv) (rule lv_update [OF assms])

lemma filled_update:
  assumes "\<And>el. soundfontBin (f el) = soundfontBin el"
    and "\<And>el. map_option soundfontBuffer (player (f el)) = map_option soundfontBuffer (player el)"
  shows "filled n w (update w' f g) = filled n w g"
  by (rule filled_lv) (rule lv_update [OF assms])

lemma cached_createPlayer:
  assumes "cached b n w g" "w' = w \<longrightarrow> bin = b"
  shows "cached b n w (createPlayer w' d bin g)"
proof (cases "audioContext g")
  case True
  with assms show ?thesis
    by (auto simp: cached_def createPlayer_def Let_def fetchingSoundFont_pending soundFontRequests_def)
next
  case False
  with assms show ?thesis
    by (auto simp: cached_def createPlayer_def Let_def fetchingSoundFont_pending soundFontRequests_def)
qed

lemma filled_createPlayer: "filled n w g \<Longrightarrow> filled n w (createPlayer w' d bin g)"
  by (cases "audioContext g") (auto simp: filled_def createPlayer_def Let_def soundFontRequests_def)

lemma cached_failLoad: "cached b n w g \<Longrightarrow> cached b n w (failLoad w' g)"
  by (simp add: failLoad_def cached_update setError_def)

lemma filled_failLoad: "filled n w g \<Longrightarrow> filled n w (failLoad w' g)"
  by (simp add: failLoad_def filled_update setError_def)

lemma cached_afterNs: "cached b n w g \<Longrightarrow> cached b n w (afterNs w' g)"
proof -
  assume c: "cached b n w g"
  have u: "cached b n w (update w' (\<lambda>el. el\<lparr>seekBarMax := x, totalTimeLabel := x\<rparr>) g)" for x
    using c by (simp add: cached_update)
  show ?thesis
  proof (cases "ns (elements g w')")
    case None
    with u show ?thesis by (simp add: afterNs_def)
  next
    case (Some d)
    let ?g1 = "update w' (\<lambda>el. el\<lparr>seekBarMax := duration (snd d), totalTimeLabel := duration (snd d)\<rparr>) g"
    have bin: "soundfontBin (elements ?g1 w') = soundfontBin (elements g w')"
      and sf: "soundFont (elements ?g1 w') = soundFont (elements g w')"
      by simp_all
    show ?thesis
    proof (cases "soundFont (elements g w')")
      case None
      with Some u sf show ?thesis by (simp add: afterNs_def Let_def)
    next
      case sf': (Some sfv)
      show ?thesis
      proof (cases "soundfontBin (elements g w')")
        case None
        with c have "w' \<noteq> w" by (auto simp: cached_def)
        with u [of "duration (snd d)"] have
          "cached b n w (?g1\<lparr>requests := requests ?g1 @ [(w', FetchSoundFont url)],
                             pending := pending ?g1 @ [AwaitSoundFont w' d]\<rparr>)" for url
          by (simp add: cached_def fetchingSoundFont_pending soundFontRequests_def)
        with Some sf' None bin sf show ?thesis by (simp add: afterNs_def Let_def)
      next
        case bin': (Some bn)
        with c have "w' = w \<longrightarrow> bn = b" by (auto simp: cached_def)
        from cached_createPlayer [OF u this] Some sf' bin' bin sf
        show ?thesis by (simp add: afterNs_def Let_def)
      qed
    qed
  qed
qed

lemma filled_afterNs: "filled n w g \<Longrightarrow> filled n w (afterNs w' g)"
proof -
  assume c: "filled n w g"
  have u: "filled n w (update w' (\<lambda>el. el\<lparr>seekBarMax := x, totalTimeLabel := x\<rparr>) g)" for x
    using c by (simp add: filled_update)
  show ?thesis
  proof (cases "ns (elements g w')")
    case None
    with u show ?thesis by (simp add: afterNs_def)
  next
    case (Some d)
    let ?g1 = "update w' (\<lambda>el. el\<lparr>seekBarMax := duration (snd d), totalTimeLabel := duration (snd d)\<rparr>) g"
    have bin: "soundfontBin (elements ?g1 w') = soundfontBin (elements g w')"
      and sf: "soundFont (elements ?g1 w') = soundFont (elements g w')"
      by simp_all
    show ?thesis
    proof (cases "soundFont (elements g w')")
      case None
      with Some u sf show ?thesis by (simp add: afterNs_def Let_def)
    next
      case sf': (Some sfv)
      show ?thesis
      proof (cases "soundfontBin (elements g w')")
        case None
        with c have "w' \<noteq> w" by (auto simp: filled_def)
        with u [of "duration (snd d)"] have
          "filled n w (?g1\<lparr>requests := requests ?g1 @ [(w', FetchSoundFont url)],
                             pending := pending ?g1 @ [AwaitSoundFont w' d]\<rparr>)" for url
          by (simp add: filled_def soundFontRequests_def)
        with Some sf' None bin sf show ?thesis by (simp add: afterNs_def Let_def)
      next
        case bin': (Some bn)
        from filled_createPlayer [OF u] Some sf' bin' bin sf
        show ?thesis by (simp add: afterNs_def Let_def)
      qed
    qed
  qed
qed

lemma cached_other_fields [simp]:
  "cached b n w (g\<lparr>nextObjectId := x\<rparr>) = cached b n w g"
  "cached b n w (g\<lparr>audioContext := y\<rparr>) = cached b n w g"
  by (simp_all add: cached_def fetchingSoundFont_def soundFontRequests_def)

lemma filled_other_fields [simp]:
  "filled n w (g\<lparr>nextObjectId := x\<rparr>) = filled n w g"
  "filled n w (g\<lparr>audioContext := y\<rparr>) = filled n w g"
  "filled n w (g\<lparr>pending := z\<rparr>) = filled n w g"
  by (simp_all add: filled_def soundFontRequests_def)

lemma cached_dispatchEvent [simp]: "cached b n w (dispatchEvent w' ev g) = cached b n w g"
  by (rule cached_lv) simp

lemma filled_dispatchEvent [simp]: "filled n w (dispatchEvent w' ev g) = filled n w g"
  by (rule filled_lv) simp

lemma cached_afterSrc: "cached b n w g \<Longrightarrow> cached b n w (afterSrc w' g)"
proof -
  assume c: "cached b n w g"
  show ?thesis
  proof (cases "set_currentTime w' 0 g")
    case (Returns g1)
    from c cached_lv [OF lv_set_currentTime_Returns [OF Returns], of b n w]
    have c1: "cached b n w g1" by simp
    then have "cached b n w (update w' (setError ''No content loaded'') g1)"
      by (simp add: cached_update setError_def)
    with c1 Returns show ?thesis by (simp add: afterSrc_def cached_afterNs)
  next
    case (Throws g1)
    from c cached_lv [OF lv_set_currentTime_Throws [OF Throws], of b n w]
    have "cached b n w g1" by simp
    with Throws show ?thesis by (simp add: afterSrc_def cached_failLoad)
  qed
qed

lemma filled_afterSrc: "filled n w g \<Longrightarrow> filled n w (afterSrc w' g)"
proof -
  assume c: "filled n w g"
  show ?thesis
  proof (cases "set_currentTime w' 0 g")
    case (Returns g1)
    from c filled_lv [OF lv_set_currentTime_Returns [OF Returns], of n w]
    have c1: "filled n w g1" by simp
    then have "filled n w (update w' (setError ''No content loaded'') g1)"
      by (simp add: filled_update setError_def)
    with c1 Returns show ?thesis by (simp add: afterSrc_def filled_afterNs)
  next
    case (Throws g1)
    from c filled_lv [OF lv_set_currentTime_Throws [OF Throws], of n w]
    have "filled n w g1" by simp
    with Throws show ?thesis by (simp add: afterSrc_def filled_failLoad)
  qed
qed

lemma cached_resumeSrc: "cached b n w g \<Longrightarrow> cached b n w (resumeSrc w' a g)"
  by (cases a) (simp_all add: resumeSrc_def cached_failLoad cached_afterSrc cached_update)

lemma filled_resumeSrc: "filled n w g \<Longrightarrow> filled n w (resumeSrc w' a g)"
  by (cases a) (simp_all add: resumeSrc_def filled_failLoad filled_afterSrc filled_update)

lemma cached_resumeSoundFont:
  "cached b n w g \<Longrightarrow> w' \<noteq> w \<Longrightarrow> cached b n w (resumeSoundFont w' d a g)"
proof (cases a)
  case None
  assume "cached b n w g"
  with None show ?thesis by (simp add: resumeSoundFont_def cached_failLoad)
next
  case (Some buf)
  assume c: "cached b n w g" and w: "w' \<noteq> w"
  then have "cached b n w (update w' (\<lambda>el. el\<lparr>soundfontBin := Some buf\<rparr>) g)"
    by (simp add: cached_def fetchingSoundFont_def soundFontRequests_def)
  from cached_createPlayer [OF this] w Some show ?thesis
    by (simp add: resumeSoundFont_def)
qed

lemma filled_resumeSoundFont: "filled n w g \<Longrightarrow> filled n w (resumeSoundFont w' d a g)"
proof (cases a)
  case None
  assume "filled n w g"
  with None show ?thesis by (simp add: resumeSoundFont_def filled_failLoad)
next
  case (Some buf)
  assume c: "filled n w g"
  then have "filled n w (update w' (\<lambda>el. el\<lparr>soundfontBin := Some buf\<rparr>) g)"
    by (simp add: filled_def soundFontRequests_def)
  from filled_createPlayer [OF this] Some show ?thesis
    by (simp add: resumeSoundFont_def)
qed

lemma lv_resumeInit_tail:
  "lv (update w (\<lambda>el. case player el of None \<Rightarrow> el
        | Some p \<Rightarrow> if objectId p = pid
                    then el\<lparr>player := Some (p\<lparr>synth := Some (soundfontBuffer p)\<rparr>)\<rparr> else el) g) = lv g"
  by (rule lv_update) (simp_all split: option.splits)

lemma lv_loadMIDI:
  "player (elements g w) = Some p \<Longrightarrow>
   lv (update w (\<lambda>el. el\<lparr>player := Some (loadMIDI m p)\<rparr>) g) = lv g"
  by (auto simp: lv_def update_def loadMIDI_def)

lemma lv_setLoaded: "lv (update w setLoaded g) = lv g"
  by (rule lv_update) (simp_all add: setLoaded_def)

lemma lv_failLoad: "lv (failLoad w g) = lv g"
  unfolding failLoad_def by (rule lv_update) (simp_all add: setError_def)

lemma lv_resumeInit: "lv (resumeInit w d pid m ok g) = lv g"
proof (cases "m \<and> \<not> ok")
  case True
  then show ?thesis by (simp add: resumeInit_def lv_failLoad)
next
  case False
  define g1 where "g1 = (if m
                   then update w (\<lambda>el. case player el of
                                          None \<Rightarrow> el
                                        | Some p \<Rightarrow> if objectId p = pid
                                                    then el\<lparr>player := Some (p\<lparr>synth := Some (soundfontBuffer p)\<rparr>)\<rparr>
                                                    else el) g
                   else g)"
  have l1: "lv g1 = lv g" by (simp add: g1_def lv_resumeInit_tail)
  have r: "resumeInit w d pid m ok g =
      (case (player (elements g1 w), ns (elements g1 w)) of
              (Some p, Some d') \<Rightarrow>
                (let g2 = update w (\<lambda>el. el\<lparr>player := Some (loadMIDI (snd d') p)\<rparr>) g1
                 in if fst d' \<noteq> fst d then g2
                    else dispatchEvent w Load (update w setLoaded g2))
            | _ \<Rightarrow> failLoad w g1)"
    using False unfolding resumeInit_def g1_def Let_def by simp
  show ?thesis
  proof (cases "player (elements g1 w)")
    case None
    with r l1 show ?thesis by (simp add: lv_failLoad)
  next
    case (Some p)
    show ?thesis
    proof (cases "ns (elements g1 w)")
      case None
      with r l1 Some show ?thesis by (simp add: lv_failLoad)
    next
      case d': (Some d')
      from lv_loadMIDI [OF Some] l1
      have "lv (update w (\<lambda>el. el\<lparr>player := Some (loadMIDI (snd d') p)\<rparr>) g1) = lv g" by simp
      with r Some d' show ?thesis by (simp add: Let_def lv_setLoaded)
    qed
  qed
qed

lemma lv_moveSeekBar [simp]: "lv (moveSeekBar w v g) = lv g"
  unfolding moveSeekBar_def by (rule lv_update) simp_all

lemma lv_set_loop [simp]: "lv (set_loop w v g) = lv g"
  unfolding set_loop_def by (rule lv_update) simp_all

lemma lv_onSeekBarInput [simp]: "lv (after (onSeekBarInput w g)) = lv g"
  by (auto simp: lv_def onSeekBarInput_def update_def after_def isPlaying_def pause_def Let_def
      split: option.splits bool.splits)

lemma lv_onSeekBarChange [simp]: "lv (after (onSeekBarChange w g)) = lv g"
  by (auto simp: lv_def onSeekBarChange_def update_def after_def isPlaying_def play_def
        setCurrentTime_def Let_def
      split: option.splits bool.splits)

lemma lv_noteCallback [simp]: "lv (after (noteCallback w n g)) = lv g"
  by (auto simp: lv_def noteCallback_def update_def after_def dispatchEvent_def Let_def
      split: option.splits)

lemma cached_initPlayerNow: "cached b n w g \<Longrightarrow> cached b n w (initPlayerNow w' i g)"
proof -
  assume c: "cached b n w g"
  let ?g0 = "update w' (\<lambda>el. el\<lparr>initTimeout := False, needInitNs := False\<rparr>) g"
  from c have c0: "cached b n w ?g0" by (simp add: cached_update)
  then have "cached b n w (?g0\<lparr>requests := requests ?g0 @ [(w', FetchSrc url)],
                                pending := pending ?g0 @ [AwaitSrc w']\<rparr>)" for url
    by (simp add: cached_def fetchingSoundFont_pending soundFontRequests_def)
  with c0 show ?thesis
    by (simp add: initPlayerNow_def Let_def cached_afterSrc cached_afterNs split: option.splits)
qed

lemma filled_initPlayerNow: "filled n w g \<Longrightarrow> filled n w (initPlayerNow w' i g)"
proof -
  assume c: "filled n w g"
  let ?g0 = "update w' (\<lambda>el. el\<lparr>initTimeout := False, needInitNs := False\<rparr>) g"
  from c have c0: "filled n w ?g0" by (simp add: filled_update)
  then have "filled n w (?g0\<lparr>requests := requests ?g0 @ [(w', FetchSrc url)],
                                pending := pending ?g0 @ [AwaitSrc w']\<rparr>)" for url
    by (simp add: filled_def soundFontRequests_def)
  with c0 show ?thesis
    by (simp add: initPlayerNow_def Let_def filled_afterSrc filled_afterNs split: option.splits)
qed

lemma lv_initPlayer:
  "lv (after (initPlayer w i g)) = lv g
   \<or> (\<exists>g2. lv g2 = lv g \<and> after (initPlayer w i g) = g2\<lparr>pending := pending g2 @ [Timer w]\<rparr>)"
proof -
  let ?g1 = "update w (\<lambda>el. el\<lparr>needInitNs := needInitNs el \<or> i\<rparr>) g"
  have l1: "lv ?g1 = lv g" by (rule lv_update) simp_all
  show ?thesis
  proof (cases "initTimeout (elements ?g1 w)")
    case True
    with l1 show ?thesis by (simp add: initPlayer_def Let_def after_def)
  next
    case False
    show ?thesis
    proof (cases "stop w ?g1")
      case (Throws g')
      with lv_stop [of w ?g1] l1 have "lv g' = lv g" by (simp add: after_def)
      with Throws False show ?thesis by (simp add: initPlayer_def Let_def after_def)
    next
      case (Returns g2)
      with lv_stop [of w ?g1] l1 have l2: "lv g2 = lv g" by (simp add: after_def)
      let ?g3 = "update w (\<lambda>el. (setLoading el)\<lparr>initTimeout := True\<rparr>) g2"
      have "lv ?g3 = lv g2" by (rule lv_update) (simp_all add: setLoading_def)
      with l2 have "lv ?g3 = lv g" by simp
      moreover have "after (initPlayer w i g) = ?g3\<lparr>pending := pending ?g3 @ [Timer w]\<rparr>"
        using Returns False by (simp add: initPlayer_def Let_def after_def)
      ultimately show ?thesis by blast
    qed
  qed
qed

lemma cached_Timer: "cached b n w g \<Longrightarrow> cached b n w (g\<lparr>pending := pending g @ [Timer w']\<rparr>)"
  by (simp add: cached_def fetchingSoundFont_pending soundFontRequests_def)

lemma cached_initPlayer:
  assumes c: "cached b n w g"
  shows "cached b n w (after (initPlayer w' i g))"
proof -
  from lv_initPlayer [of w' i g] consider
    (same) "lv (after (initPlayer w' i g)) = lv g"
  | (timer) g2 where "lv g2 = lv g" "after (initPlayer w' i g) = g2\<lparr>pending := pending g2 @ [Timer w']\<rparr>"
    by blast
  then show ?thesis
  proof cases
    case same
    from cached_lv [OF same, of b n w] c show ?thesis by simp
  next
    case timer
    from cached_lv [OF timer(1), of b n w] c have "cached b n w g2" by simp
    from cached_Timer [OF this, of w'] timer(2) show ?thesis by simp
  qed
qed

lemma filled_initPlayer:
  assumes c: "filled n w g"
  shows "filled n w (after (initPlayer w' i g))"
proof -
  from lv_initPlayer [of w' i g] consider
    (same) "lv (after (initPlayer w' i g)) = lv g"
  | (timer) g2 where "lv g2 = lv g" "after (initPlayer w' i g) = g2\<lparr>pending := pending g2 @ [Timer w']\<rparr>"
    by blast
  then show ?thesis
  proof cases
    case same
    from filled_lv [OF same, of n w] c show ?thesis by simp
  next
    case timer
    from filled_lv [OF timer(1), of n w] c have "filled n w g2" by simp
    with timer(2) show ?thesis by simp
  qed
qed

lemma cached_set_soundFont: "cached b n w g \<Longrightarrow> cached b n w (after (set_soundFont w' v g))"
proof -
  assume c: "cached b n w g"
  then have "cached b n w (update w' (\<lambda>el. el\<lparr>soundFont := v\<rparr>) g)"
    by (simp add: cached_update)
  from cached_initPlayer [OF this] c show ?thesis
    by (simp add: set_soundFont_def after_def)
qed

lemma filled_set_soundFont: "filled n w g \<Longrightarrow> filled n w (after (set_soundFont w' v g))"
proof -
  assume c: "filled n w g"
  then have "filled n w (update w' (\<lambda>el. el\<lparr>soundFont := v\<rparr>) g)"
    by (simp add: filled_update)
  from filled_initPlayer [OF this] c show ?thesis
    by (simp add: set_soundFont_def after_def)
qed

lemma cached_set_src: "cached b n w g \<Longrightarrow> cached b n w (after (set_src w' v g))"
proof -
  assume c: "cached b n w g"
  let ?g1 = "update w' (\<lambda>el. el\<lparr>ns := None\<rparr>) g"
  define r where "r = (if v = None \<and> src (elements ?g1 w') = None then Returns ?g1
               else initPlayer w' True (update w' (\<lambda>el. el\<lparr>src := v\<rparr>) ?g1))"
  from c have c1: "cached b n w ?g1" by (simp add: cached_update)
  then have "cached b n w (update w' (\<lambda>el. el\<lparr>src := v\<rparr>) ?g1)"
    by (simp add: cached_update)
  from cached_initPlayer [OF this] c1 have cr: "cached b n w (after r)"
    by (simp add: r_def after_def)
  have s: "set_src w' v g = (case r of Throws g' \<Rightarrow> Throws g' | Returns g2 \<Rightarrow> initPlayer w' True g2)"
    by (simp add: set_src_def r_def Let_def)
  show ?thesis
  proof (cases r)
    case (Returns g2)
    with cr have "cached b n w g2" by (simp add: after_def)
    from cached_initPlayer [OF this] Returns s show ?thesis by simp
  next
    case (Throws g')
    with cr s show ?thesis by (simp add: after_def)
  qed
qed

lemma filled_set_src: "filled n w g \<Longrightarrow> filled n w (after (set_src w' v g))"
proof -
  assume c: "filled n w g"
  let ?g1 = "update w' (\<lambda>el. el\<lparr>ns := None\<rparr>) g"
  define r where "r = (if v = None \<and> src (elements ?g1 w') = None then Returns ?g1
               else initPlayer w' True (update w' (\<lambda>el. el\<lparr>src := v\<rparr>) ?g1))"
  from c have c1: "filled n w ?g1" by (simp add: filled_update)
  then have "filled n w (update w' (\<lambda>el. el\<lparr>src := v\<rparr>) ?g1)"
    by (simp add: filled_update)
  from filled_initPlayer [OF this] c1 have cr: "filled n w (after r)"
    by (simp add: r_def after_def)
  have s: "set_src w' v g = (case r of Throws g' \<Rightarrow> Throws g' | Returns g2 \<Rightarrow> initPlayer w' True g2)"
    by (simp add: set_src_def r_def Let_def)
  show ?thesis
  proof (cases r)
    case (Returns g2)
    with cr have "filled n w g2" by (simp add: after_def)
    from filled_initPlayer [OF this] Returns s show ?thesis by simp
  next
    case (Throws g')
    with cr s show ?thesis by (simp add: after_def)
  qed
qed

lemma cached_take_drop:
  "cached b n w g \<Longrightarrow>
   cached b n w (g\<lparr>pending := take i (pending g) @ drop (Suc i) (pending g)\<rparr>)"
  by (auto simp: cached_def fetchingSoundFont_pending soundFontRequests_def
      dest: in_set_takeD in_set_dropD)

lemma cached_resume:
  assumes c: "cached b n w g" and i: "i < length (pending g)"
    and r: "resume (pending g ! i) a (g\<lparr>pending := take i (pending g) @ drop (Suc i) (pending g)\<rparr>) = Some g'"
  shows "cached b n w g'"
proof -
  let ?g = "g\<lparr>pending := take i (pending g) @ drop (Suc i) (pending g)\<rparr>"
  note c' = cached_take_drop [OF c, of i]
  from i have mem: "pending g ! i \<in> set (pending g)" by simp
  show ?thesis
  proof (cases "pending g ! i")
    case (Timer w')
    with r c' show ?thesis
      by (cases a) (auto simp: resume_def fireTimer_def cached_initPlayerNow)
  next
    case (AwaitSrc w')
    with r c' show ?thesis
      by (cases a) (auto simp: resume_def cached_resumeSrc)
  next
    case (AwaitSoundFont w' d)
    with mem c have "w' \<noteq> w" by (cases d) (auto simp: cached_def fetchingSoundFont_pending)
    with AwaitSoundFont r c' show ?thesis
      by (cases a) (auto simp: resume_def cached_resumeSoundFont)
  next
    case (AwaitInit w' d pid m)
    with r c' show ?thesis
      by (cases a) (auto simp: resume_def cached_lv [OF lv_resumeInit])
  qed
qed

lemma filled_resume:
  assumes c: "filled n w g"
    and r: "resume t a (g\<lparr>pending := ts\<rparr>) = Some g'"
  shows "filled n w g'"
proof -
  from c have c': "filled n w (g\<lparr>pending := ts\<rparr>)" by simp
  show ?thesis
  proof (cases t)
    case (Timer w')
    with r c' show ?thesis
      by (cases a) (auto simp: resume_def fireTimer_def filled_initPlayerNow)
  next
    case (AwaitSrc w')
    with r c' show ?thesis
      by (cases a) (auto simp: resume_def filled_resumeSrc)
  next
    case (AwaitSoundFont w' d)
    with r c' show ?thesis
      by (cases a) (auto simp: resume_def filled_resumeSoundFont)
  next
    case (AwaitInit w' d pid m)
    with r c' show ?thesis
      by (cases a) (auto simp: resume_def filled_lv [OF lv_resumeInit])
  qed
qed

lemma cached_perform:
  assumes c: "cached b n w g" and p: "perform act g = Some g'"
  shows "cached b n w g'"
proof (cases act)
  case (Connect w')
  with p c show ?thesis
    by (auto simp: perform_def connectedCallback_def cached_initPlayerNow cached_update)
next
  case (Reload w')
  with p c show ?thesis by (auto simp: perform_def reload_def cached_initPlayerNow)
next
  case (SetSoundFont w' v)
  with p c show ?thesis by (auto simp: perform_def cached_set_soundFont)
next
  case (SetSrc w' v)
  with p c show ?thesis by (auto simp: perform_def cached_set_src)
next
  case (SetLoop w' v)
  with p c show ?thesis by (auto simp: perform_def cached_lv [OF lv_set_loop])
next
  case (SetCurrentTime w' v)
  with p c show ?thesis by (auto simp: perform_def cached_lv [OF lv_set_currentTime])
next
  case (StartPlayer w')
  with p c show ?thesis by (auto simp: perform_def startPlayer_def cached_lv [OF lv_transport(2)])
next
  case (StopPlayer w')
  with p c show ?thesis by (auto simp: perform_def cached_lv [OF lv_stop])
next
  case (SeekInput w' v)
  with p c cached_lv [OF lv_onSeekBarInput, of b n w w' "moveSeekBar w' v g"]
    cached_lv [OF lv_moveSeekBar, of b n w w' v g]
  show ?thesis by (auto simp: perform_def)
next
  case (SeekChange w' v)
  with p c cached_lv [OF lv_onSeekBarChange, of b n w w' "moveSeekBar w' v g"]
    cached_lv [OF lv_moveSeekBar, of b n w w' v g]
  show ?thesis by (auto simp: perform_def)
next
  case (NoteCallback w' k)
  with p c show ?thesis by (auto simp: perform_def cached_lv [OF lv_noteCallback])
next
  case (Deliver i a)
  with p c show ?thesis
    by (auto simp: perform_def split: if_splits intro: cached_resume)
qed

lemma filled_perform:
  assumes c: "filled n w g" and p: "perform act g = Some g'"
  shows "filled n w g'"
proof (cases act)
  case (Connect w')
  with p c show ?thesis
    by (auto simp: perform_def connectedCallback_def filled_initPlayerNow filled_update)
next
  case (Reload w')
  with p c show ?thesis by (auto simp: perform_def reload_def filled_initPlayerNow)
next
  case (SetSoundFont w' v)
  with p c show ?thesis by (auto simp: perform_def filled_set_soundFont)
next
  case (SetSrc w' v)
  with p c show ?thesis by (auto simp: perform_def filled_set_src)
next
  case (SetLoop w' v)
  with p c show ?thesis by (auto simp: perform_def filled_lv [OF lv_set_loop])
next
  case (SetCurrentTime w' v)
  with p c show ?thesis by (auto simp: perform_def filled_lv [OF lv_set_currentTime])
next
  case (StartPlayer w')
  with p c show ?thesis by (auto simp: perform_def startPlayer_def filled_lv [OF lv_transport(2)])
next
  case (StopPlayer w')
  with p c show ?thesis by (auto simp: perform_def filled_lv [OF lv_stop])
next
  case (SeekInput w' v)
  with p c filled_lv [OF lv_onSeekBarInput, of n w w' "moveSeekBar w' v g"]
    filled_lv [OF lv_moveSeekBar, of n w w' v g]
  show ?thesis by (auto simp: perform_def)
next
  case (SeekChange w' v)
  with p c filled_lv [OF lv_onSeekBarChange, of n w w' "moveSeekBar w' v g"]
    filled_lv [OF lv_moveSeekBar, of n w w' v g]
  show ?thesis by (auto simp: perform_def)
next
  case (NoteCallback w' k)
  with p c show ?thesis by (auto simp: perform_def filled_lv [OF lv_noteCallback])
next
  case (Deliver i a)
  with p c show ?thesis
    by (auto simp: perform_def split: if_splits intro: filled_resume)
qed

lemma cached_performAll:
  "cached b n w g \<Longrightarrow> performAll acts g = Some g' \<Longrightarrow> cached b n w g'"
proof (induction acts arbitrary: g)
  case Nil
  then show ?case by simp
next
  case (Cons act acts)
  then show ?case by (auto split: option.splits dest: cached_perform)
qed

lemma filled_performAll:
  "filled n w g \<Longrightarrow> performAll acts g = Some g' \<Longrightarrow> filled n w g'"
proof (induction acts arbitrary: g)
  case Nil
  then show ?case by simp
next
  case (Cons act acts)
  then show ?case by (auto split: option.splits dest: filled_perform)
qed

lemmas loading_defs = perform_def resume_def fireTimer_def connectedCallback_def reload_def
  initPlayerNow_def initPlayer_def afterSrc_def afterNs_def resumeSrc_def resumeSoundFont_def
  resumeInit_def createPlayer_def failLoad_def set_soundFont_def set_src_def set_loop_def
  setLoading_def setLoaded_def setError_def loadMIDI_def newSequencer_def
  soundFontRequests_def fetchingSoundFont_def

subsection \<open>The sound-font cache\<close>

text \<open>
  C10, as amended. Take any page and any sequence of calls and deliveries on it (loads and
  reloads, changes of the attributes, timers, answers of the network, the transport).
  If the widget's cache holds a buffer, its player (if any) was built from that buffer and
  no fetch of a sound font for the widget is on its way, then afterwards the cache holds
  the same buffer, the widget's player (if any) is built from it, and no sound font was
  fetched for the widget, whatever the \<^verbatim>\<open>sound-font\<close> attribute has become. And whenever the
  cache holds a buffer, no call or delivery fetches a sound font for the widget or empties
  the cache: \<^verbatim>\<open>initPlayerNow\<close> fetches only when it finds the cache empty.
\<close>

theorem cached_sound_font_is_reused:
  "(soundfontBin (elements g w) = Some b
      \<and> (\<forall>p. player (elements g w) = Some p \<longrightarrow> soundfontBuffer p = b)
      \<and> \<not> fetchingSoundFont g w
      \<and> performAll acts g = Some g' \<longrightarrow>
      soundfontBin (elements g' w) = Some b
      \<and> (\<forall>p. player (elements g' w) = Some p \<longrightarrow> soundfontBuffer p = b)
      \<and> \<not> fetchingSoundFont g' w
      \<and> soundFontRequests g' w = soundFontRequests g w)
   \<and> (soundfontBin (elements g w) \<noteq> None \<and> performAll acts g = Some g' \<longrightarrow>
      soundfontBin (elements g' w) \<noteq> None
      \<and> soundFontRequests g' w = soundFontRequests g w)"
proof -
  have "cached b (soundFontRequests g w) w g'"
    if "cached b (soundFontRequests g w) w g" "performAll acts g = Some g'"
    using that by (rule cached_performAll)
  moreover have "filled (soundFontRequests g w) w g'"
    if "filled (soundFontRequests g w) w g" "performAll acts g = Some g'"
    using that by (rule filled_performAll)
  ultimately show ?thesis
    unfolding cached_def filled_def by blast
qed

text \<open>A loaded widget: its \<^verbatim>\<open>sound-font\<close> attribute is changed, the timer of \<^verbatim>\<open>initPlayer\<close>
  fires and the new player is initialised. The widget dispatches \<^verbatim>\<open>load\<close>; the cache and
  the player's buffer are the old ones and nothing was fetched.\<close>

theorem cached_sound_font_is_reused_witness:
  "soundfontBin (elements cachedPage 0) = Some [1, 2, 3]
   \<and> \<not> fetchingSoundFont cachedPage 0
   \<and> map_option (\<lambda>g. (soundFont (elements g 0), pending g, map fst (dispatched g)))
        (performAll [SetSoundFont 0 (Some ''other.sf2''), Deliver 0 Fired, Deliver 0 (Initialised True)]
           cachedPage)
       = Some (Some ''other.sf2'', [], [0])
   \<and> map_option (\<lambda>g. (soundfontBin (elements g 0), soundFontRequests g 0,
                        map_option soundfontBuffer (player (elements g 0))))
        (performAll [SetSoundFont 0 (Some ''other.sf2''), Deliver 0 Fired, Deliver 0 (Initialised True)]
           cachedPage)
       = Some (Some [1, 2, 3], [], Some [1, 2, 3])"
proof -
  let ?acts = "[SetSoundFont 0 (Some ''other.sf2''), Deliver 0 Fired, Deliver 0 (Initialised True)]"
  have h: "soundfontBin (elements cachedPage 0) = Some [1, 2, 3]"
    "\<forall>p. player (elements cachedPage 0) = Some p \<longrightarrow> soundfontBuffer p = [1, 2, 3]"
    "\<not> fetchingSoundFont cachedPage 0" "soundFontRequests cachedPage 0 = []"
    by (simp_all add: cachedPage_def example_defs fetchingSoundFont_def soundFontRequests_def)
  obtain g' where run: "performAll ?acts cachedPage = Some g'"
    and obs: "soundFont (elements g' 0) = Some ''other.sf2''" "pending g' = []"
       "map fst (dispatched g') = [0]" "player (elements g' 0) \<noteq> None"
    by (simp add: cachedPage_def song_def example_defs loading_defs widget_defs transport_simps)
  from cached_sound_font_is_reused
         [where g = cachedPage and w = 0 and b = "[1, 2, 3]" and acts = ?acts and g' = g'] h run
  have "soundfontBin (elements g' 0) = Some [1, 2, 3]" "soundFontRequests g' 0 = []"
    "\<forall>p. player (elements g' 0) = Some p \<longrightarrow> soundfontBuffer p = [1, 2, 3]"
    by simp_all
  with obs run h show ?thesis by (cases "player (elements g' 0)") simp_all
qed

text \<open>
  C10 as stated (at most one fetch per widget) fails when a second load reaches the check
  of the cache before the first fetch has answered. A widget is connected and its source
  arrives: the default sound font is fetched. The \<^verbatim>\<open>sound-font\<close> attribute is changed, the
  timer fires, the source arrives again: the cache is still empty and the other sound font
  is fetched too. The first answer fills the cache and builds the player from \<open>[1]\<close>; the
  second answer replaces both by \<open>[2]\<close>.
\<close>

theorem overlapping_loads_fetch_twice:
  "map_option (\<lambda>g. soundFontRequests g 0)
     (performAll [Connect 0, Deliver 0 (Source (Decoded song)), SetSoundFont 0 (Some ''other.sf2''),
                  Deliver 1 Fired, Deliver 1 (Source (Decoded song))] freshPage)
     = Some [DEFAULT_SOUNDFONT, ''other.sf2'']
   \<and> map_option (\<lambda>g. (soundfontBin (elements g 0), map_option soundfontBuffer (player (elements g 0))))
     (performAll [Connect 0, Deliver 0 (Source (Decoded song)), SetSoundFont 0 (Some ''other.sf2''),
                  Deliver 1 Fired, Deliver 1 (Source (Decoded song)),
                  Deliver 0 (SoundFontBuffer (Some [1]))] freshPage)
     = Some (Some [1], Some [1])
   \<and> map_option (\<lambda>g. (soundfontBin (elements g 0), map_option soundfontBuffer (player (elements g 0))))
     (performAll [Connect 0, Deliver 0 (Source (Decoded song)), SetSoundFont 0 (Some ''other.sf2''),
                  Deliver 1 Fired, Deliver 1 (Source (Decoded song)),
                  Deliver 0 (SoundFontBuffer (Some [1])), Deliver 0 (SoundFontBuffer (Some [2]))] freshPage)
     = Some (Some [2], Some [2])"
  by (simp add: freshPage_def song_def example_defs loading_defs widget_defs transport_simps)

lemma loopEvents_update [simp]: "loopEvents (update w f g) = loopEvents g"
  by (simp add: loopEvents_def)

lemma loopEvents_fields [simp]:
  "loopEvents (g\<lparr>playingPlayer := a\<rparr>) = loopEvents g"
  "loopEvents (g\<lparr>pending := b\<rparr>) = loopEvents g"
  "loopEvents (g\<lparr>requests := c\<rparr>) = loopEvents g"
  "loopEvents (g\<lparr>audioContext := d\<rparr>) = loopEvents g"
  "loopEvents (g\<lparr>nextObjectId := e\<rparr>) = loopEvents g"
  by (simp_all add: loopEvents_def)

lemma loopEvents_dispatchEvent [simp]:
  "ev \<noteq> Loop \<Longrightarrow> loopEvents (dispatchEvent w ev g) = loopEvents g"
  by (simp add: loopEvents_def dispatchEvent_def)

lemma loopEvents_set_currentTime [simp]: "loopEvents (after (set_currentTime w v g)) = loopEvents g"
  by (simp add: set_currentTime_def after_def Let_def split: option.splits bool.splits)



lemma loopEvents_markStopped [simp]: "loopEvents (markStopped w f g) = loopEvents g"
  by (simp add: markStopped_def Let_def)


lemma loopEvents_stop [simp]: "loopEvents (after (stop w g)) = loopEvents g"
  by (simp add: stop.simps handleStop_False after_def split: option.splits bool.splits)



lemma loopEvents_failLoad [simp]: "loopEvents (failLoad w g) = loopEvents g"
  by (simp add: failLoad_def)

lemma loopEvents_createPlayer [simp]: "loopEvents (createPlayer w d bin g) = loopEvents g"
  by (simp add: createPlayer_def Let_def)

lemma loopEvents_resumeInit [simp]: "loopEvents (resumeInit w d pid m ok g) = loopEvents g"
  by (simp add: resumeInit_def Let_def split: option.splits)

lemma loopEvents_afterNs [simp]: "loopEvents (afterNs w g) = loopEvents g"
  by (simp add: afterNs_def Let_def split: option.splits)

lemma loopEvents_resumeSoundFont [simp]: "loopEvents (resumeSoundFont w d a g) = loopEvents g"
  by (simp add: resumeSoundFont_def split: option.splits)

lemma loopEvents_afterSrc [simp]: "loopEvents (afterSrc w g) = loopEvents g"
  using loopEvents_set_currentTime [of w 0 g]
  by (auto simp: afterSrc_def after_def split: outcome.splits)

lemma loopEvents_resumeSrc [simp]: "loopEvents (resumeSrc w a g) = loopEvents g"
  by (simp add: resumeSrc_def split: sourceAnswer.splits)

lemma loopEvents_initPlayerNow [simp]: "loopEvents (initPlayerNow w i g) = loopEvents g"
  by (simp add: initPlayerNow_def Let_def split: option.splits)

lemma loopEvents_initPlayer [simp]: "loopEvents (after (initPlayer w i g)) = loopEvents g"
  using loopEvents_stop [of w "update w (\<lambda>el. el\<lparr>needInitNs := needInitNs el \<or> i\<rparr>) g"]
  by (simp add: initPlayer_def Let_def after_def split: outcome.splits)

lemma loopEvents_set_soundFont [simp]: "loopEvents (after (set_soundFont w v g)) = loopEvents g"
  using loopEvents_initPlayer [of w True "update w (\<lambda>el. el\<lparr>soundFont := v\<rparr>) g"]
  by (simp add: set_soundFont_def) (simp add: after_def)

lemma loopEvents_set_src [simp]: "loopEvents (after (set_src w v g)) = loopEvents g"
proof -
  let ?g1 = "update w (\<lambda>el. el\<lparr>ns := None\<rparr>) g"
  define r where "r = (if v = None \<and> src (elements ?g1 w) = None then Returns ?g1
               else initPlayer w True (update w (\<lambda>el. el\<lparr>src := v\<rparr>) ?g1))"
  have lr: "loopEvents (after r) = loopEvents g"
    using loopEvents_initPlayer [of w True "update w (\<lambda>el. el\<lparr>src := v\<rparr>) ?g1"]
    by (simp add: r_def) (simp add: after_def)
  have s: "set_src w v g = (case r of Throws g' \<Rightarrow> Throws g' | Returns g2 \<Rightarrow> initPlayer w True g2)"
    by (simp add: set_src_def r_def Let_def)
  show ?thesis
  proof (cases r)
    case (Returns g2)
    with lr have "loopEvents g2 = loopEvents g" by (simp add: after_def)
    with loopEvents_initPlayer [of w True g2] Returns s show ?thesis by simp
  next
    case (Throws g')
    with lr s show ?thesis by (simp add: after_def)
  qed
qed

lemma loopEvents_seek [simp]:
  "loopEvents (moveSeekBar w v g) = loopEvents g"
  "loopEvents (set_loop w b g) = loopEvents g"
  "loopEvents (after (onSeekBarInput w g)) = loopEvents g"
  "loopEvents (after (onSeekBarChange w g)) = loopEvents g"
  "loopEvents (after (noteCallback w n g)) = loopEvents g"
  by (simp_all add: moveSeekBar_def set_loop_def onSeekBarInput_def onSeekBarChange_def
        noteCallback_def after_def Let_def split: option.splits bool.splits)




subsection \<open>Looping\<close>



subsection \<open>One playing widget\<close>


end
